theory Spec2Isabelle
  imports Complex_Main "HOL-Library.Word"
begin

section \<open>GLTriangleBatch: the data model\<close>

text \<open>
  The class \<^verbatim>\<open>GLTriangleBatch\<close> of \<^verbatim>\<open>src/GLTriangleBatch.cpp\<close>. A \<^verbatim>\<open>GLfloat\<close> is
  modelled as a real number (no rounding, no NaN, no infinities); the vectors
  \<^verbatim>\<open>M3DVector3f\<close> and \<^verbatim>\<open>M3DVector2f\<close> are tuples of them.
\<close>

type_synonym GLfloat = real
type_synonym M3DVector3f = "GLfloat \<times> GLfloat \<times> GLfloat"
type_synonym M3DVector2f = "GLfloat \<times> GLfloat"
type_synonym GLushort = "16 word"
type_synonym byte = "8 word"

text \<open>
  A three-element array argument (\<^verbatim>\<open>M3DVector3f verts[3]\<close>) is a triple; \<open>tri_at\<close> is the
  subscript \<^verbatim>\<open>verts[iVertex]\<close> for \<open>iVertex\<close> in \<open>{0, 1, 2}\<close>, the only values the
  corner loop produces.
\<close>

type_synonym 'a tri = "'a \<times> 'a \<times> 'a"

fun tri_at :: "'a tri \<Rightarrow> nat \<Rightarrow> 'a" where
  "tri_at (a, b, c) iVertex = (if iVertex = 0 then a else if iVertex = 1 then b else c)"

text \<open>
  The four array pointers of the class. A pointer is null, points to a block obtained from
  \<^verbatim>\<open>new[]\<close>, holds the marker \<^verbatim>\<open>NOT_VALID_BUT_USED\<close>, or dangles (it was passed to
  \<^verbatim>\<open>delete[]\<close> and not reset, as at the end of \<^verbatim>\<open>LoadMesh\<close>). The C++ test
  \<^verbatim>\<open>if(p)\<close> is \<open>nonnull\<close>.
\<close>

datatype ptr = Null | Block | NotValidButUsed | Dangling

fun nonnull :: "ptr \<Rightarrow> bool" where
  "nonnull Null = False"
| "nonnull _ = True"

text \<open>
  A buffer object after \<^verbatim>\<open>glBufferData(target, size, data, usage)\<close>: the size in bytes that
  was requested and the bytes of \<^verbatim>\<open>data\<close> that \<^verbatim>\<open>fread\<close> had delivered (the rest of the
  block is indeterminate).
\<close>

type_synonym gl_buffer = "nat \<times> byte list"

text \<open>
  The members of the class. The counters are \<^verbatim>\<open>GLuint\<close> in the source and natural numbers
  here. The contents of the four blocks are stores from offset to element; the block behind
  each of them has \<open>nMaxIndexes\<close> elements, a write at an offset at or beyond
  \<open>nMaxIndexes\<close> is outside the block (undefined behaviour in C++) and is recorded in the
  store at that offset, so that the counters follow the code exactly.
  \<open>boundingSphereRadius\<close> is the bit pattern of the float as a 32-bit number.
\<close>

record batch =
  nMaxIndexes :: nat
  nNumIndexes :: nat
  nNumVerts :: nat
  boundingSphereRadius :: nat
  pIndexes :: ptr
  pVerts :: ptr
  pNorms :: ptr
  pTexCoords :: ptr
  indexes :: "nat \<Rightarrow> GLushort"
  verts :: "nat \<Rightarrow> M3DVector3f"
  norms :: "nat \<Rightarrow> M3DVector3f"
  texCoords :: "nat \<Rightarrow> M3DVector2f"
  vertexData :: "gl_buffer option"
  normalData :: "gl_buffer option"
  textureData :: "gl_buffer option"
  indexData :: "gl_buffer option"

section \<open>Numeric primitives\<close>

text \<open>
  Modelled from the spec: \<^verbatim>\<open>m3dCloseEnough\<close> is declared in \<^verbatim>\<open>math3d.h\<close>, which is not
  under src/. The spec gives it as \<open>close(a,b,\<epsilon>) \<equiv> |a - b| < \<epsilon>\<close>.
\<close>

definition m3dCloseEnough :: "GLfloat \<Rightarrow> GLfloat \<Rightarrow> GLfloat \<Rightarrow> bool" where
  "m3dCloseEnough fCandidate fCompare fEpsilon \<longleftrightarrow> \<bar>fCandidate - fCompare\<bar> < fEpsilon"

text \<open>
  Modelled from the spec: \<^verbatim>\<open>m3dNormalizeVector3\<close> is declared in \<^verbatim>\<open>math3d.h\<close>, which is
  not under src/. The spec calls it a 3-vector normalizer: the vector scaled by the inverse
  of its length. On a vector whose computed squared length is zero (the zero vector, or in
  floats one so short that the squares underflow) the float code divides by zero and the
  components become NaN, which \<^verbatim>\<open>m3dCloseEnough\<close> never finds close to anything. The
  reals have no NaN, and division by zero gives the zero vector here: the model and the
  float code differ on such normals, and the statement on the matching of identical corners
  is made for normals the float code normalises to finite components
  (\<open>normals_normalizable\<close> below).
\<close>

definition m3dNormalizeVector3 :: "M3DVector3f \<Rightarrow> M3DVector3f" where
  "m3dNormalizeVector3 u =
     (case u of (x, y, z) \<Rightarrow>
        let s = 1 / sqrt (x * x + y * y + z * z) in (x * s, y * s, z * s))"

section \<open>Constructor and BeginMesh\<close>

text \<open>
  The constructor sets the three counters and the radius to zero. It does not assign the
  pointers (their initial value comes from the class declaration, which is not under src/);
  they are null here, and the stores and buffer objects are empty.
\<close>

definition GLTriangleBatch :: batch where
  "GLTriangleBatch =
     \<lparr>nMaxIndexes = 0, nNumIndexes = 0, nNumVerts = 0, boundingSphereRadius = 0,
      pIndexes = Null, pVerts = Null, pNorms = Null, pTexCoords = Null,
      indexes = (\<lambda>_. 0), verts = (\<lambda>_. (0, 0, 0)), norms = (\<lambda>_. (0, 0, 0)),
      texCoords = (\<lambda>_. (0, 0)),
      vertexData = None, normalData = None, textureData = None, indexData = None\<rparr>"


text \<open>
  \<^verbatim>\<open>BeginMesh(nMaxVerts)\<close>: the counters are reset and four blocks of \<open>nMaxVerts\<close>
  elements are allocated. \<^verbatim>\<open>new[]\<close> does not initialise the elements: the stores keep
  whatever they held.
\<close>

definition BeginMesh :: "batch \<Rightarrow> nat \<Rightarrow> batch" where
  "BeginMesh b nMaxVerts =
     b\<lparr>nMaxIndexes := nMaxVerts, nNumIndexes := 0, nNumVerts := 0,
       pIndexes := Block, pVerts := Block, pNorms := Block, pTexCoords := Block\<rparr>"

section \<open>AddTriangle\<close>

text \<open>
  One corner of the new triangle: \<^verbatim>\<open>verts[iVertex]\<close>, \<^verbatim>\<open>vNorms[iVertex]\<close> and
  \<^verbatim>\<open>vTexCoords[iVertex]\<close>, the last two absent when the caller passed a null pointer.
\<close>

type_synonym corner = "M3DVector3f \<times> M3DVector3f option \<times> M3DVector2f option"

definition corner_at ::
  "M3DVector3f tri \<Rightarrow> M3DVector3f tri option \<Rightarrow> M3DVector2f tri option \<Rightarrow> nat \<Rightarrow> corner" where
  "corner_at vs vNorms vTexCoords iVertex =
     (tri_at vs iVertex, map_option (\<lambda>t. tri_at t iVertex) vNorms,
      map_option (\<lambda>t. tri_at t iVertex) vTexCoords)"

definition close3 :: "M3DVector3f \<Rightarrow> M3DVector3f \<Rightarrow> GLfloat \<Rightarrow> bool" where
  "close3 p q epsilon =
     (case p of (p0, p1, p2) \<Rightarrow> case q of (q0, q1, q2) \<Rightarrow>
        m3dCloseEnough p0 q0 epsilon \<and> m3dCloseEnough p1 q1 epsilon \<and>
        m3dCloseEnough p2 q2 epsilon)"

definition close2 :: "M3DVector2f \<Rightarrow> M3DVector2f \<Rightarrow> GLfloat \<Rightarrow> bool" where
  "close2 p q epsilon =
     (case p of (p0, p1) \<Rightarrow> case q of (q0, q1) \<Rightarrow>
        m3dCloseEnough p0 q0 epsilon \<and> m3dCloseEnough p1 q1 epsilon)"

text \<open>
  The four tests in the body of the inner loop (lines 177 to 244), for the stored vertex
  \<open>iMatch\<close>. The pointers do not change inside the loop, so exactly one of the four
  \<^verbatim>\<open>if\<close> blocks applies. Where a pointer of the batch is non-null the argument of that
  channel is dereferenced; a null argument there would be a null dereference, which the
  release step of \<^verbatim>\<open>AddTriangle\<close> excludes (the branch is \<open>False\<close> here).
\<close>

definition vertex_matches :: "batch \<Rightarrow> corner \<Rightarrow> GLfloat \<Rightarrow> nat \<Rightarrow> bool" where
  "vertex_matches b c epsilon iMatch =
     (case c of (v, vn, vt) \<Rightarrow>
        if nonnull (pTexCoords b) \<and> nonnull (pNorms b) then
          (case (vn, vt) of
             (Some n, Some t) \<Rightarrow>
               close3 (verts b iMatch) v epsilon \<and> close3 (norms b iMatch) n epsilon \<and>
               close2 (texCoords b iMatch) t epsilon
           | _ \<Rightarrow> False)
        else if nonnull (pNorms b) \<and> pTexCoords b = Null then
          (case vn of
             Some n \<Rightarrow> close3 (verts b iMatch) v epsilon \<and> close3 (norms b iMatch) n epsilon
           | None \<Rightarrow> False)
        else if nonnull (pTexCoords b) \<and> pNorms b = Null then
          (case vt of
             Some t \<Rightarrow> close3 (verts b iMatch) v epsilon \<and> close2 (texCoords b iMatch) t epsilon
           | None \<Rightarrow> False)
        else close3 (verts b iMatch) v epsilon)"

text \<open>
  "Then add the index only" (lines 192 and 193, and the same two statements in the other
  three blocks): \<^verbatim>\<open>pIndexes[nNumIndexes] = iMatch; nNumIndexes++;\<close>. The assignment
  converts the \<^verbatim>\<open>GLuint\<close> to a \<^verbatim>\<open>GLushort\<close>. Neither statement looks at
  \<open>nMaxIndexes\<close>.
\<close>

definition emit_index :: "batch \<Rightarrow> nat \<Rightarrow> batch" where
  "emit_index b iMatch =
     b\<lparr>indexes := (indexes b)(nNumIndexes b := of_nat iMatch),
       nNumIndexes := nNumIndexes b + 1\<rparr>"

text \<open>
  The inner loop (line 174): \<^verbatim>\<open>for(iMatch = nSearchStart; iMatch < nNumVerts; iMatch++)\<close>.
  On the first match the index is emitted and the loop is left. The result is the value of
  \<open>iMatch\<close> after the loop and the batch.
\<close>

function scan :: "batch \<Rightarrow> corner \<Rightarrow> GLfloat \<Rightarrow> nat \<Rightarrow> nat \<times> batch" where
  "scan b c epsilon iMatch =
     (if iMatch < nNumVerts b then
        (if vertex_matches b c epsilon iMatch then (iMatch, emit_index b iMatch)
         else scan b c epsilon (iMatch + 1))
      else (iMatch, b))"
  by pat_completeness auto
termination
  by (relation "measure (\<lambda>(b, c, epsilon, iMatch). nNumVerts b - iMatch)") auto

text \<open>
  The block after the inner loop (lines 247 to 264): the corner is stored as a new vertex
  when the loop ran to \<open>nNumVerts\<close> and both counters are below \<open>nMaxIndexes\<close>.
\<close>

definition append_vertex :: "batch \<Rightarrow> corner \<Rightarrow> batch" where
  "append_vertex b c =
     (case c of (v, vn, vt) \<Rightarrow>
        b\<lparr>verts := (verts b)(nNumVerts b := v),
          norms := (if nonnull (pNorms b)
                    then (case vn of Some n \<Rightarrow> (norms b)(nNumVerts b := n) | None \<Rightarrow> norms b)
                    else norms b),
          texCoords := (if nonnull (pTexCoords b)
                        then (case vt of Some t \<Rightarrow> (texCoords b)(nNumVerts b := t)
                              | None \<Rightarrow> texCoords b)
                        else texCoords b),
          indexes := (indexes b)(nNumIndexes b := of_nat (nNumVerts b)),
          nNumIndexes := nNumIndexes b + 1,
          nNumVerts := nNumVerts b + 1\<rparr>)"

text \<open>One iteration of the outer loop (lines 171 to 265).\<close>

definition add_corner :: "nat \<Rightarrow> GLfloat \<Rightarrow> batch \<Rightarrow> corner \<Rightarrow> batch" where
  "add_corner nSearchStart epsilon b c =
     (case scan b c epsilon nSearchStart of (iMatch, b') \<Rightarrow>
        if iMatch = nNumVerts b' \<and> nNumVerts b' < nMaxIndexes b' \<and>
           nNumIndexes b' < nMaxIndexes b'
        then append_vertex b' c else b')"

text \<open>
  Lines 166 to 168: \<^verbatim>\<open>int nSearchStart = nNumVerts - nCheckRange\<close>, clamped at 0. The
  subtraction is unsigned 32-bit arithmetic (\<open>nNumVerts\<close> is a \<^verbatim>\<open>GLuint\<close>), and its
  result is converted to a signed 32-bit \<^verbatim>\<open>int\<close>.
\<close>

definition to_int32 :: "int \<Rightarrow> int" where
  "to_int32 x = (x + 2 ^ 31) mod 2 ^ 32 - 2 ^ 31"

definition search_start :: "nat \<Rightarrow> int \<Rightarrow> nat" where
  "search_start numVerts nCheckRange =
     (let nSearchStart = to_int32 (int numVerts - nCheckRange)
      in if nSearchStart < 0 then 0 else nat nSearchStart)"

text \<open>
  Lines 153 to 163: a null argument releases the block of its channel.
\<close>

definition release_channels ::
  "batch \<Rightarrow> M3DVector3f tri option \<Rightarrow> M3DVector2f tri option \<Rightarrow> batch" where
  "release_channels b vNorms vTexCoords =
     (let b1 = (if vTexCoords = None \<and> pTexCoords b \<noteq> Null then b\<lparr>pTexCoords := Null\<rparr> else b)
      in if vNorms = None \<and> pNorms b1 \<noteq> Null then b1\<lparr>pNorms := Null\<rparr> else b1)"

text \<open>
  Lines 147 to 151: the three normals of the caller are normalised in place when the
  argument is not null.
\<close>

definition normalize_normals :: "M3DVector3f tri option \<Rightarrow> M3DVector3f tri option" where
  "normalize_normals vNorms =
     map_option (\<lambda>(n0, n1, n2).
       (m3dNormalizeVector3 n0, m3dNormalizeVector3 n1, m3dNormalizeVector3 n2)) vNorms"

text \<open>
  \<^verbatim>\<open>AddTriangle(verts, vNorms, vTexCoords, epsilon, nCheckRange)\<close> in a release build
  (\<^verbatim>\<open>assert(false)\<close> compiled out; a debug build aborts there). The result is the batch and
  the caller's normals array after the call.
\<close>

definition AddTriangle ::
  "batch \<Rightarrow> M3DVector3f tri \<Rightarrow> M3DVector3f tri option \<Rightarrow> M3DVector2f tri option \<Rightarrow>
   GLfloat \<Rightarrow> int \<Rightarrow> batch \<times> M3DVector3f tri option" where
  "AddTriangle b vs vNorms vTexCoords epsilon nCheckRange =
     (if nNumIndexes b \<ge> nMaxIndexes b then (b, vNorms)
      else
        let vNorms' = normalize_normals vNorms;
            b1 = release_channels b vNorms' vTexCoords;
            nSearchStart = search_start (nNumVerts b1) nCheckRange
        in (foldl (add_corner nSearchStart epsilon) b1
              (map (corner_at vs vNorms' vTexCoords) [0, 1, 2]),
            vNorms'))"

text \<open>
  A sequence of \<^verbatim>\<open>AddTriangle\<close> calls on one batch, each call given by its five arguments.
\<close>

type_synonym call =
  "M3DVector3f tri \<times> M3DVector3f tri option \<times> M3DVector2f tri option \<times> GLfloat \<times> int"

fun AddTriangles :: "batch \<Rightarrow> call list \<Rightarrow> batch" where
  "AddTriangles b [] = b"
| "AddTriangles b ((vs, vNorms, vTexCoords, epsilon, nCheckRange) # calls) =
     AddTriangles (fst (AddTriangle b vs vNorms vTexCoords epsilon nCheckRange)) calls"

subsection \<open>Capacity events of a call\<close>

text \<open>
  A call is dropped when the test of line 140 succeeds. A corner is dropped for capacity
  when the inner loop ran to \<open>nNumVerts\<close> without a match and the capacity test of line 248
  fails. A call is truncated when one of its three corners is dropped for capacity.
\<close>

definition call_dropped :: "batch \<Rightarrow> bool" where
  "call_dropped b \<longleftrightarrow> nNumIndexes b \<ge> nMaxIndexes b"

definition corner_dropped :: "nat \<Rightarrow> GLfloat \<Rightarrow> batch \<Rightarrow> corner \<Rightarrow> bool" where
  "corner_dropped nSearchStart epsilon b c =
     (case scan b c epsilon nSearchStart of (iMatch, b') \<Rightarrow>
        iMatch = nNumVerts b' \<and>
        \<not> (nNumVerts b' < nMaxIndexes b' \<and> nNumIndexes b' < nMaxIndexes b'))"

fun corners_truncated :: "nat \<Rightarrow> GLfloat \<Rightarrow> batch \<Rightarrow> corner list \<Rightarrow> bool" where
  "corners_truncated nSearchStart epsilon b [] = False"
| "corners_truncated nSearchStart epsilon b (c # cs) =
     (corner_dropped nSearchStart epsilon b c \<or>
      corners_truncated nSearchStart epsilon (add_corner nSearchStart epsilon b c) cs)"

definition call_truncated ::
  "batch \<Rightarrow> M3DVector3f tri \<Rightarrow> M3DVector3f tri option \<Rightarrow> M3DVector2f tri option \<Rightarrow>
   GLfloat \<Rightarrow> int \<Rightarrow> bool" where
  "call_truncated b vs vNorms vTexCoords epsilon nCheckRange =
     (let vNorms' = normalize_normals vNorms;
          b1 = release_channels b vNorms' vTexCoords
      in corners_truncated (search_start (nNumVerts b1) nCheckRange) epsilon b1
           (map (corner_at vs vNorms' vTexCoords) [0, 1, 2]))"

fun capacity_loss :: "batch \<Rightarrow> call list \<Rightarrow> bool" where
  "capacity_loss b [] = False"
| "capacity_loss b ((vs, vNorms, vTexCoords, epsilon, nCheckRange) # calls) =
     (call_dropped b \<or> call_truncated b vs vNorms vTexCoords epsilon nCheckRange \<or>
      capacity_loss (fst (AddTriangle b vs vNorms vTexCoords epsilon nCheckRange)) calls)"

subsection \<open>The indexer as the specification words it\<close>

text \<open>
  The matching rule of the specification: a candidate matches when its position is close
  to the corner's, and its normal is if the batch has normals, and its texture coordinate
  is if the batch has texture coordinates.
\<close>

definition spec_matches :: "batch \<Rightarrow> corner \<Rightarrow> GLfloat \<Rightarrow> nat \<Rightarrow> bool" where
  "spec_matches b c epsilon i =
     (case c of (v, vn, vt) \<Rightarrow>
        close3 (verts b i) v epsilon \<and>
        (nonnull (pNorms b) \<longrightarrow>
           (case vn of Some n \<Rightarrow> close3 (norms b i) n epsilon | None \<Rightarrow> False)) \<and>
        (nonnull (pTexCoords b) \<longrightarrow>
           (case vt of Some t \<Rightarrow> close2 (texCoords b i) t epsilon | None \<Rightarrow> False)))"

text \<open>
  The corner step as the specification states it: with \<open>start = max(0, V - range)\<close> the
  smallest matching \<open>i\<close> in \<open>[start, V)\<close> is appended to the index array; with no match
  the corner is stored at slot \<open>V\<close>, \<open>V\<close> is appended to the index array and \<open>V\<close> is
  incremented.
\<close>

definition stated_corner :: "GLfloat \<Rightarrow> int \<Rightarrow> batch \<Rightarrow> corner \<Rightarrow> batch" where
  "stated_corner epsilon check_range b c =
     (let start = nat (max 0 (int (nNumVerts b) - check_range))
      in case find (spec_matches b c epsilon) [start ..< nNumVerts b] of
           Some i \<Rightarrow> emit_index b i
         | None \<Rightarrow> append_vertex b c)"

definition stated_AddTriangle ::
  "batch \<Rightarrow> M3DVector3f tri \<Rightarrow> M3DVector3f tri option \<Rightarrow> M3DVector2f tri option \<Rightarrow>
   GLfloat \<Rightarrow> int \<Rightarrow> batch" where
  "stated_AddTriangle b vs vNorms vTexCoords epsilon check_range =
     (let vNorms' = normalize_normals vNorms
      in foldl (stated_corner epsilon check_range) (release_channels b vNorms' vTexCoords)
           (map (corner_at vs vNorms' vTexCoords) [0, 1, 2]))"

text \<open>
  The corner step with the window fixed for the call and the capacity test: the smallest
  matching \<open>i\<close> in \<open>[start, V)\<close> is appended to the index array; with no match the corner
  is stored at slot \<open>V\<close> when \<open>V < N_max\<close> and \<open>I < N_max\<close>, and dropped otherwise.
\<close>

definition spec_corner :: "nat \<Rightarrow> GLfloat \<Rightarrow> batch \<Rightarrow> corner \<Rightarrow> batch" where
  "spec_corner start epsilon b c =
     (case find (spec_matches b c epsilon) [start ..< nNumVerts b] of
        Some i \<Rightarrow> emit_index b i
      | None \<Rightarrow>
          if nNumVerts b < nMaxIndexes b \<and> nNumIndexes b < nMaxIndexes b
          then append_vertex b c else b)"

definition spec_AddTriangle ::
  "batch \<Rightarrow> M3DVector3f tri \<Rightarrow> M3DVector3f tri option \<Rightarrow> M3DVector2f tri option \<Rightarrow>
   GLfloat \<Rightarrow> int \<Rightarrow> batch" where
  "spec_AddTriangle b vs vNorms vTexCoords epsilon check_range =
     (let vNorms' = normalize_normals vNorms;
          b1 = release_channels b vNorms' vTexCoords;
          start = nat (max 0 (int (nNumVerts b1) - check_range))
      in foldl (spec_corner start epsilon) b1
           (map (corner_at vs vNorms' vTexCoords) [0, 1, 2]))"

subsection \<open>Corners with the same attributes, and later states of a batch\<close>

text \<open>
  Two corners share their attributes across the channels present in a batch: the same
  position, the same normal when the batch has normals, the same texture coordinate when it
  has texture coordinates.
\<close>

definition same_attributes :: "batch \<Rightarrow> corner \<Rightarrow> corner \<Rightarrow> bool" where
  "same_attributes b c c' =
     (case c of (v, vn, vt) \<Rightarrow> case c' of (v', vn', vt') \<Rightarrow>
        v = v' \<and> (nonnull (pNorms b) \<longrightarrow> vn = vn') \<and> (nonnull (pTexCoords b) \<longrightarrow> vt = vt'))"

text \<open>
  A normal that the float normalizer maps to finite components: its squared length lies
  between \<open>2^-100\<close> and \<open>2^100\<close>, well inside the range of a 32-bit float, so that the
  computed squared length neither is zero, nor underflows to zero, nor overflows. A
  normals argument is normalizable when its three normals are; a null argument has no
  normals.
\<close>

definition normalizable :: "M3DVector3f \<Rightarrow> bool" where
  "normalizable u =
     (case u of (x, y, z) \<Rightarrow>
        1 / 2 ^ 100 \<le> x * x + y * y + z * z \<and> x * x + y * y + z * z \<le> 2 ^ 100)"

definition normals_normalizable :: "M3DVector3f tri option \<Rightarrow> bool" where
  "normals_normalizable vNorms =
     (case vNorms of
        None \<Rightarrow> True
      | Some (n0, n1, n2) \<Rightarrow> normalizable n0 \<and> normalizable n1 \<and> normalizable n2)"

text \<open>
  A later state of the same batch: the counters have not decreased, and the vertices and
  indices that were there are still there.
\<close>

definition batch_extends :: "batch \<Rightarrow> batch \<Rightarrow> bool" where
  "batch_extends s t \<longleftrightarrow>
     nNumVerts s \<le> nNumVerts t \<and> nNumIndexes s \<le> nNumIndexes t \<and>
     (\<forall>i < nNumVerts s.
        verts t i = verts s i \<and> norms t i = norms s i \<and> texCoords t i = texCoords s i) \<and>
     (\<forall>k < nNumIndexes s. indexes t k = indexes s k)"

section \<open>Persistence\<close>

text \<open>
  A \<^verbatim>\<open>FILE*\<close> open for reading is the list of the bytes not yet read; one open for writing is
  the list of the bytes written. \<^verbatim>\<open>fread(ptr, size, 1, pFile)\<close> returns the number of
  complete elements read (0 when the size is 0 or fewer bytes than the size are left), the
  bytes it stored through \<open>ptr\<close>, and the rest of the stream.
\<close>

definition fread :: "nat \<Rightarrow> byte list \<Rightarrow> nat \<times> byte list \<times> byte list" where
  "fread nbytes pFile =
     (if nbytes = 0 then (0, [], pFile)
      else if nbytes \<le> length pFile then (1, take nbytes pFile, drop nbytes pFile)
      else (0, pFile, []))"

text \<open>Little-endian encoding of a 32-bit member (section 6.2 of the specification).\<close>

fun le_nat :: "byte list \<Rightarrow> nat" where
  "le_nat [] = 0"
| "le_nat (x # xs) = unat x + 256 * le_nat xs"

fun le_bytes :: "nat \<Rightarrow> nat \<Rightarrow> byte list" where
  "le_bytes 0 v = []"
| "le_bytes (Suc n) v = of_nat (v mod 256) # le_bytes n (v div 256)"

text \<open>
  \<^verbatim>\<open>fread(&member, sizeof(GLuint), 1, pFile)\<close>: the bytes read overwrite the first bytes of
  the member; the member keeps its other bytes.
\<close>

definition read_member :: "nat \<Rightarrow> byte list \<Rightarrow> nat \<times> byte list" where
  "read_member member pFile =
     (case fread 4 pFile of (n, bytes, rest) \<Rightarrow>
        (le_nat (bytes @ drop (length bytes) (le_bytes 4 member)), rest))"

text \<open>
  \<^verbatim>\<open>SaveMesh(FILE *pFile)\<close>: the body that wrote the header and the arrays is commented out
  (lines 370 to 410); what is compiled is \<^verbatim>\<open>(void)pFile; return true;\<close>. The result is the
  return value and the file.
\<close>

definition SaveMesh :: "batch \<Rightarrow> byte list \<Rightarrow> bool \<times> byte list" where
  "SaveMesh b pFile = (True, pFile)"

text \<open>
  Lines 439 to 449 of \<^verbatim>\<open>LoadMesh\<close>: the three header members, the index block and the
  position block are read; no return value of \<^verbatim>\<open>fread\<close> is looked at. The result is the
  three members, the bytes delivered into the two blocks and the rest of the stream.
  (\<^verbatim>\<open>new[]\<close> is taken to succeed.)
\<close>

definition load_required ::
  "batch \<Rightarrow> byte list \<Rightarrow> nat \<times> nat \<times> nat \<times> byte list \<times> byte list \<times> byte list" where
  "load_required b pFile =
     (case read_member (nNumIndexes b) pFile of (numIndexes, f1) \<Rightarrow>
      case read_member (nNumVerts b) f1 of (numVerts, f2) \<Rightarrow>
      case read_member (boundingSphereRadius b) f2 of (radius, f3) \<Rightarrow>
      case fread (2 * numIndexes) f3 of (_, indexBytes, f4) \<Rightarrow>
      case fread (12 * numVerts) f4 of (_, vertBytes, f5) \<Rightarrow>
        (numIndexes, numVerts, radius, indexBytes, vertBytes, f5))"

text \<open>
  Lines 452 to 459 and 465 to 472: an optional channel. When the caller asked for it, a
  block is allocated and read; unless \<^verbatim>\<open>fread\<close> returns 1 the block is deleted and the
  pointer set to null. When the caller did not ask, the pointer is left as it was.
\<close>

definition load_channel ::
  "bool \<Rightarrow> ptr \<Rightarrow> nat \<Rightarrow> byte list \<Rightarrow> ptr \<times> byte list \<times> byte list" where
  "load_channel wanted p nbytes pFile =
     (if wanted then
        (case fread nbytes pFile of (n, bytes, rest) \<Rightarrow>
           if n \<noteq> 1 then (Null, [], rest) else (Block, bytes, rest))
      else (p, [], pFile))"

text \<open>
  \<^verbatim>\<open>LoadMesh(FILE *pFile, bool bNormals, bool bTexCoords)\<close>: the reads, then the uploads
  (lines 474 to 496), each followed by \<^verbatim>\<open>delete[]\<close> without resetting the pointer. The
  result is the return value, the batch and the rest of the stream.
\<close>

definition LoadMesh :: "batch \<Rightarrow> byte list \<Rightarrow> bool \<Rightarrow> bool \<Rightarrow> bool \<times> batch \<times> byte list" where
  "LoadMesh b pFile bNormals bTexCoords =
     (case load_required b pFile of
        (numIndexes, numVerts, radius, indexBytes, vertBytes, f5) \<Rightarrow>
      case load_channel bNormals (pNorms b) (12 * numVerts) f5 of (pN, normBytes, f6) \<Rightarrow>
      case load_channel bTexCoords (pTexCoords b) (8 * numVerts) f6 of (pT, texBytes, f7) \<Rightarrow>
        (True,
         b\<lparr>nNumIndexes := numIndexes, nNumVerts := numVerts, boundingSphereRadius := radius,
           pIndexes := Dangling, pVerts := Dangling,
           pNorms := (if nonnull pN then Dangling else pN),
           pTexCoords := (if nonnull pT then Dangling else pT),
           vertexData := Some (12 * numVerts, vertBytes),
           normalData := (if nonnull pN then Some (12 * numVerts, normBytes) else normalData b),
           textureData := (if nonnull pT then Some (8 * numVerts, texBytes) else textureData b),
           indexData := Some (2 * numIndexes, indexBytes)\<rparr>,
         f7))"

text \<open>
  The stream position at which \<^verbatim>\<open>LoadMesh\<close> reads the normals block, and the one at which
  it reads the texture coordinate block.
\<close>

definition normals_stream :: "batch \<Rightarrow> byte list \<Rightarrow> byte list" where
  "normals_stream b pFile =
     (case load_required b pFile of (numIndexes, numVerts, radius, indexBytes, vertBytes, f5) \<Rightarrow> f5)"

definition texcoords_stream :: "batch \<Rightarrow> byte list \<Rightarrow> bool \<Rightarrow> byte list" where
  "texcoords_stream b pFile bNormals =
     (case load_required b pFile of
        (numIndexes, numVerts, radius, indexBytes, vertBytes, f5) \<Rightarrow>
      case load_channel bNormals (pNorms b) (12 * numVerts) f5 of (pN, normBytes, f6) \<Rightarrow> f6)"

section \<open>Concrete inputs\<close>

text \<open>The triangle of scenario S1, and a triangle whose three corners coincide.\<close>

definition tri_S1 :: "M3DVector3f tri" where
  "tri_S1 = ((0, 0, 0), (1, 0, 0), (0, 1, 0))"

definition tri_point :: "M3DVector3f tri" where
  "tri_point = ((1, 1, 1), (1, 1, 1), (1, 1, 1))"

text \<open>Three equal normals of length 2, and three different normals along the axes.\<close>

definition normals_up :: "M3DVector3f tri" where
  "normals_up = ((0, 0, 2), (0, 0, 2), (0, 0, 2))"

definition normals_axes :: "M3DVector3f tri" where
  "normals_axes = ((0, 0, 1), (0, 2, 0), (2, 0, 0))"

text \<open>
  A file with \<open>I = 0\<close>, \<open>V = 1\<close>, \<open>r = 0\<close>, the twelve bytes of one position and three
  more bytes: too few for one normal (12 bytes) or one texture coordinate (8 bytes).
\<close>

definition file_short_channel :: "byte list" where
  "file_short_channel =
     [0, 0, 0, 0,  1, 0, 0, 0,  0, 0, 0, 0,
      0, 0, 128, 63,  0, 0, 0, 0,  0, 0, 0, 0,
      1, 2, 3]"

section \<open>The inner loop\<close>

declare scan.simps [simp del]

lemma emit_index_simps [simp]:
  "nNumIndexes (emit_index b i) = nNumIndexes b + 1"
  "nNumVerts (emit_index b i) = nNumVerts b"
  "nMaxIndexes (emit_index b i) = nMaxIndexes b"
  "pNorms (emit_index b i) = pNorms b"
  "pTexCoords (emit_index b i) = pTexCoords b"
  "verts (emit_index b i) = verts b"
  "norms (emit_index b i) = norms b"
  "texCoords (emit_index b i) = texCoords b"
  "indexes (emit_index b i) = (indexes b)(nNumIndexes b := of_nat i)"
  by (simp_all add: emit_index_def)

lemma extend_window:
  "\<not> P i \<Longrightarrow> \<forall>k. Suc i \<le> k \<and> k < x \<longrightarrow> \<not> P k \<Longrightarrow> \<forall>k. i \<le> k \<and> k < x \<longrightarrow> \<not> P k"
  by (metis Suc_leI le_neq_implies_less)

lemma scan_cases:
  "scan b c e i = (j, b') \<Longrightarrow>
     (i \<le> j \<and> j < nNumVerts b \<and> vertex_matches b c e j \<and>
      (\<forall>k. i \<le> k \<and> k < j \<longrightarrow> \<not> vertex_matches b c e k) \<and> b' = emit_index b j)
     \<or> (b' = b \<and> j = max i (nNumVerts b) \<and>
        (\<forall>k. i \<le> k \<and> k < nNumVerts b \<longrightarrow> \<not> vertex_matches b c e k))"
proof (induction b c e i rule: scan.induct)
  case (1 b c e i)
  show ?case
  proof (cases "i < nNumVerts b")
    case False
    then show ?thesis using 1(2) by (auto simp: scan.simps [of b c e i])
  next
    case True
    show ?thesis
    proof (cases "vertex_matches b c e i")
      case m: True
      then show ?thesis using True 1(2) by (auto simp: scan.simps [of b c e i])
    next
      case m: False
      then have "scan b c e (i + 1) = (j, b')" using True 1(2) by (simp add: scan.simps [of b c e i])
      from 1(1) [OF True m this]
      consider (found) "Suc i \<le> j" "j < nNumVerts b" "vertex_matches b c e j"
          "\<forall>k. Suc i \<le> k \<and> k < j \<longrightarrow> \<not> vertex_matches b c e k" "b' = emit_index b j"
        | (none) "b' = b" "j = max (Suc i) (nNumVerts b)"
          "\<forall>k. Suc i \<le> k \<and> k < nNumVerts b \<longrightarrow> \<not> vertex_matches b c e k"
        by auto
      then show ?thesis
      proof cases
        case found
        from extend_window [of "vertex_matches b c e", OF m found(4)] found
        show ?thesis by simp
      next
        case none
        from extend_window [of "vertex_matches b c e", OF m none(3)] none True
        show ?thesis by (simp add: max_def)
      qed
    qed
  qed
qed

lemma scan_match:
  assumes "i \<le> j" "j < nNumVerts b" "vertex_matches b c e j"
    "\<forall>k. i \<le> k \<and> k < j \<longrightarrow> \<not> vertex_matches b c e k"
  shows "scan b c e i = (j, emit_index b j)"
proof -
  obtain j' b' where s: "scan b c e i = (j', b')" by (cases "scan b c e i")
  from scan_cases [OF s] assms show ?thesis unfolding s
    by (metis linorder_neqE_nat not_less order.strict_trans2 order_less_imp_le)
qed

lemma scan_no_match:
  assumes "\<forall>k. i \<le> k \<and> k < nNumVerts b \<longrightarrow> \<not> vertex_matches b c e k"
  shows "scan b c e i = (max i (nNumVerts b), b)"
proof -
  obtain j' b' where s: "scan b c e i = (j', b')" by (cases "scan b c e i")
  from scan_cases [OF s] assms show ?thesis unfolding s by auto
qed

section \<open>One corner\<close>

lemma append_vertex_simps [simp]:
  "nNumIndexes (append_vertex b c) = nNumIndexes b + 1"
  "nNumVerts (append_vertex b c) = nNumVerts b + 1"
  "nMaxIndexes (append_vertex b c) = nMaxIndexes b"
  "pNorms (append_vertex b c) = pNorms b"
  "pTexCoords (append_vertex b c) = pTexCoords b"
  "indexes (append_vertex b c) = (indexes b)(nNumIndexes b := of_nat (nNumVerts b))"
  by (simp_all add: append_vertex_def split: prod.splits)

lemma add_corner_cases:
  obtains (matched) j where "start \<le> j" "j < nNumVerts b" "vertex_matches b c e j"
      "\<forall>k. start \<le> k \<and> k < j \<longrightarrow> \<not> vertex_matches b c e k"
      "add_corner start e b c = emit_index b j"
  | (appended) "start \<le> nNumVerts b"
      "\<forall>k. start \<le> k \<and> k < nNumVerts b \<longrightarrow> \<not> vertex_matches b c e k"
      "nNumVerts b < nMaxIndexes b" "nNumIndexes b < nMaxIndexes b"
      "add_corner start e b c = append_vertex b c"
  | (skipped) "\<forall>k. start \<le> k \<and> k < nNumVerts b \<longrightarrow> \<not> vertex_matches b c e k"
      "\<not> (start \<le> nNumVerts b \<and> nNumVerts b < nMaxIndexes b \<and> nNumIndexes b < nMaxIndexes b)"
      "add_corner start e b c = b"
proof -
  obtain j b' where s: "scan b c e start = (j, b')" by (cases "scan b c e start")
  from scan_cases [OF s]
  consider (f) "start \<le> j" "j < nNumVerts b" "vertex_matches b c e j"
      "\<forall>k. start \<le> k \<and> k < j \<longrightarrow> \<not> vertex_matches b c e k" "b' = emit_index b j"
    | (n) "b' = b" "j = max start (nNumVerts b)"
      "\<forall>k. start \<le> k \<and> k < nNumVerts b \<longrightarrow> \<not> vertex_matches b c e k"
    by auto
  then show thesis
  proof cases
    case f
    then have "add_corner start e b c = emit_index b j"
      by (simp add: add_corner_def s)
    with f show thesis by (intro matched [of j]) auto
  next
    case n
    show thesis
    proof (cases "start \<le> nNumVerts b \<and> nNumVerts b < nMaxIndexes b \<and> nNumIndexes b < nMaxIndexes b")
      case True
      then have "add_corner start e b c = append_vertex b c"
        using n by (simp add: add_corner_def s max_def)
      with n True show thesis by (intro appended) auto
    next
      case False
      then have "add_corner start e b c = b"
        using n by (auto simp add: add_corner_def s max_def)
      with n False show thesis by (intro skipped) auto
    qed
  qed
qed

lemma add_corner_pointers [simp]:
  "pNorms (add_corner start e b c) = pNorms b"
  "pTexCoords (add_corner start e b c) = pTexCoords b"
  "nMaxIndexes (add_corner start e b c) = nMaxIndexes b"
  by (rule add_corner_cases [where start = start and b = b and c = c and e = e]; simp)+

lemma add_corner_norms_released:
  "pNorms b = Null \<Longrightarrow> norms (add_corner start e b c) = norms b"
  by (rule add_corner_cases [where start = start and b = b and c = c and e = e])
    (simp_all add: append_vertex_def split: prod.splits)

lemma add_corner_texCoords_released:
  "pTexCoords b = Null \<Longrightarrow> texCoords (add_corner start e b c) = texCoords b"
  by (rule add_corner_cases [where start = start and b = b and c = c and e = e])
    (simp_all add: append_vertex_def split: prod.splits)

lemma foldl_add_corner_pointers [simp]:
  "pNorms (foldl (add_corner start e) b cs) = pNorms b"
  "pTexCoords (foldl (add_corner start e) b cs) = pTexCoords b"
  "nMaxIndexes (foldl (add_corner start e) b cs) = nMaxIndexes b"
  by (induction cs arbitrary: b; simp)+

lemma foldl_add_corner_norms_released:
  "pNorms b = Null \<Longrightarrow> norms (foldl (add_corner start e) b cs) = norms b"
  by (induction cs arbitrary: b) (simp_all add: add_corner_norms_released)

lemma foldl_add_corner_texCoords_released:
  "pTexCoords b = Null \<Longrightarrow> texCoords (foldl (add_corner start e) b cs) = texCoords b"
  by (induction cs arbitrary: b) (simp_all add: add_corner_texCoords_released)

section \<open>The release step\<close>

lemma release_channels_simps [simp]:
  "nNumIndexes (release_channels b vn vt) = nNumIndexes b"
  "nNumVerts (release_channels b vn vt) = nNumVerts b"
  "nMaxIndexes (release_channels b vn vt) = nMaxIndexes b"
  "indexes (release_channels b vn vt) = indexes b"
  "verts (release_channels b vn vt) = verts b"
  "norms (release_channels b vn vt) = norms b"
  "texCoords (release_channels b vn vt) = texCoords b"
  "pNorms (release_channels b vn vt) = (if vn = None then Null else pNorms b)"
  "pTexCoords (release_channels b vn vt) = (if vt = None then Null else pTexCoords b)"
  by (simp_all add: release_channels_def Let_def)

lemmas eval_defs =
  AddTriangle_def BeginMesh_def GLTriangleBatch_def tri_S1_def tri_point_def
  normalize_normals_def release_channels_def search_start_def to_int32_def add_corner_def
  corner_at_def
  vertex_matches_def close3_def close2_def m3dCloseEnough_def append_vertex_def
  emit_index_def scan.simps

section \<open>Capacity at entry\<close>

text \<open>
  C5. As stated (the call is dropped whenever \<open>I + 3 \<le> N_max\<close> fails) the claim does not hold:
  with \<open>N_max = 1\<close> and \<open>I = 0\<close> the call is processed, one index is emitted and one vertex
  is appended.
\<close>

theorem AddTriangle_processed_below_capacity:
  "\<not> nNumIndexes (BeginMesh GLTriangleBatch 1) + 3 \<le> nMaxIndexes (BeginMesh GLTriangleBatch 1) \<and>
   nNumIndexes (fst (AddTriangle (BeginMesh GLTriangleBatch 1) tri_S1 None None (1 / 1000) 64)) = 1 \<and>
   nNumVerts (fst (AddTriangle (BeginMesh GLTriangleBatch 1) tri_S1 None None (1 / 1000) 64)) = 1"
  by (simp add: eval_defs)

text \<open>
  C5, amended. When \<open>I \<ge> N_max\<close> at the moment of the call, the call is dropped: the batch
  is unchanged (no index emitted, no vertex appended) and the caller's arrays are untouched.
\<close>

theorem AddTriangle_dropped_at_capacity:
  "nMaxIndexes b \<le> nNumIndexes b \<Longrightarrow>
   AddTriangle b vs vNorms vTexCoords epsilon nCheckRange = (b, vNorms)"
  by (simp add: AddTriangle_def)

theorem AddTriangle_dropped_at_capacity_witness:
  "nMaxIndexes (fst (AddTriangle (BeginMesh GLTriangleBatch 3) tri_S1 None None (1 / 1000) 64))
     \<le> nNumIndexes (fst (AddTriangle (BeginMesh GLTriangleBatch 3) tri_S1 None None (1 / 1000) 64)) \<and>
   AddTriangle (fst (AddTriangle (BeginMesh GLTriangleBatch 3) tri_S1 None None (1 / 1000) 64))
     tri_point None None (1 / 1000) 64
   = (fst (AddTriangle (BeginMesh GLTriangleBatch 3) tri_S1 None None (1 / 1000) 64), None)"
proof -
  have h: "nMaxIndexes (fst (AddTriangle (BeginMesh GLTriangleBatch 3) tri_S1 None None (1 / 1000) 64))
     \<le> nNumIndexes (fst (AddTriangle (BeginMesh GLTriangleBatch 3) tri_S1 None None (1 / 1000) 64))"
    by (simp add: eval_defs)
  from h AddTriangle_dropped_at_capacity [OF h] show ?thesis by simp
qed

section \<open>Index count against capacity\<close>

text \<open>
  C2. The match path emits an index without looking at \<open>nMaxIndexes\<close>: on a batch begun
  with \<open>N_max = 1\<close>, a triangle whose three corners coincide leaves \<open>I = 3\<close> (the second and
  third index are written behind the end of the index block).
\<close>

theorem AddTriangle_index_count_exceeds_capacity:
  "nMaxIndexes (fst (AddTriangle (BeginMesh GLTriangleBatch 1) tri_point None None (1 / 1000) 64)) = 1 \<and>
   nNumIndexes (fst (AddTriangle (BeginMesh GLTriangleBatch 1) tri_point None None (1 / 1000) 64)) = 3 \<and>
   nNumVerts (fst (AddTriangle (BeginMesh GLTriangleBatch 1) tri_point None None (1 / 1000) 64)) = 1"
  by (simp add: eval_defs)

section \<open>Normalisation of the caller's normals\<close>

text \<open>
  C10. A call with a non-null normals argument that is not dropped at entry normalises the
  three normals of the caller in place, also when the batch has no normals block
  (\<open>pNorms\<close> null), in which case the normals store of the batch is left as it was.
\<close>

theorem AddTriangle_normalizes_in_place:
  "nNumIndexes b < nMaxIndexes b \<Longrightarrow>
   snd (AddTriangle b vs (Some (n0, n1, n2)) vTexCoords epsilon nCheckRange) =
     Some (m3dNormalizeVector3 n0, m3dNormalizeVector3 n1, m3dNormalizeVector3 n2) \<and>
   (pNorms b = Null \<longrightarrow>
      pNorms (fst (AddTriangle b vs (Some (n0, n1, n2)) vTexCoords epsilon nCheckRange)) = Null \<and>
      norms (fst (AddTriangle b vs (Some (n0, n1, n2)) vTexCoords epsilon nCheckRange)) = norms b)"
  by (simp add: AddTriangle_def normalize_normals_def Let_def foldl_add_corner_norms_released
        del: foldl.simps)

theorem AddTriangle_normalizes_in_place_witness:
  "nNumIndexes (release_channels (BeginMesh GLTriangleBatch 6) None None)
     < nMaxIndexes (release_channels (BeginMesh GLTriangleBatch 6) None None) \<and>
   pNorms (release_channels (BeginMesh GLTriangleBatch 6) None None) = Null \<and>
   snd (AddTriangle (release_channels (BeginMesh GLTriangleBatch 6) None None) tri_S1
          (Some ((0, 0, 2), (0, 2, 0), (1, 0, 0))) None (1 / 1000) 64) =
     Some ((0, 0, 1), (0, 1, 0), (1, 0, 0))"
proof -
  have h: "nNumIndexes (release_channels (BeginMesh GLTriangleBatch 6) None None)
     < nMaxIndexes (release_channels (BeginMesh GLTriangleBatch 6) None None)"
    by (simp add: BeginMesh_def)
  have n: "m3dNormalizeVector3 (0, 0, 2) = (0, 0, 1)" "m3dNormalizeVector3 (0, 2, 0) = (0, 1, 0)"
    "m3dNormalizeVector3 (1, 0, 0) = (1, 0, 0)"
    by (simp_all add: m3dNormalizeVector3_def)
  from AddTriangle_normalizes_in_place [OF h, of tri_S1 "(0, 0, 2)" "(0, 2, 0)" "(1, 0, 0)" None "1 / 1000" 64]
  show ?thesis using h n by (simp add: BeginMesh_def)
qed

section \<open>Sequences of calls\<close>

lemma AddTriangle_not_dropped:
  "nNumIndexes b < nMaxIndexes b \<Longrightarrow>
   fst (AddTriangle b vs vn vt e r) =
     foldl (add_corner (search_start (nNumVerts b) r) e)
       (release_channels b (normalize_normals vn) vt)
       (map (corner_at vs (normalize_normals vn) vt) [0, 1, 2])"
  by (simp add: AddTriangle_def Let_def del: foldl.simps)

lemma normalize_normals_None [simp]: "normalize_normals vn = None \<longleftrightarrow> vn = None"
  by (simp add: normalize_normals_def)

lemma AddTriangle_nMaxIndexes [simp]:
  "nMaxIndexes (fst (AddTriangle b vs vn vt e r)) = nMaxIndexes b"
  by (cases "nNumIndexes b < nMaxIndexes b")
    (simp_all add: AddTriangle_not_dropped del: foldl.simps, simp add: AddTriangle_def)

lemma AddTriangle_pNorms_Null:
  "pNorms b = Null \<Longrightarrow> pNorms (fst (AddTriangle b vs vn vt e r)) = Null"
  by (cases "nNumIndexes b < nMaxIndexes b")
    (simp_all add: AddTriangle_not_dropped del: foldl.simps, simp add: AddTriangle_def)

lemma AddTriangle_pTexCoords_Null:
  "pTexCoords b = Null \<Longrightarrow> pTexCoords (fst (AddTriangle b vs vn vt e r)) = Null"
  by (cases "nNumIndexes b < nMaxIndexes b")
    (simp_all add: AddTriangle_not_dropped del: foldl.simps, simp add: AddTriangle_def)

lemma AddTriangles_pNorms_Null:
  "pNorms b = Null \<Longrightarrow> pNorms (AddTriangles b calls) = Null"
  by (induction b calls rule: AddTriangles.induct) (simp_all add: AddTriangle_pNorms_Null)

lemma AddTriangles_pTexCoords_Null:
  "pTexCoords b = Null \<Longrightarrow> pTexCoords (AddTriangles b calls) = Null"
  by (induction b calls rule: AddTriangles.induct) (simp_all add: AddTriangle_pTexCoords_Null)

lemma vertex_matches_no_normals:
  "pNorms b = Null \<Longrightarrow>
   vertex_matches (b\<lparr>norms := ns\<rparr>) (v, n', t) e i = vertex_matches b (v, n, t) e i"
  by (simp add: vertex_matches_def split: option.splits)

lemma vertex_matches_no_texCoords:
  "pTexCoords b = Null \<Longrightarrow>
   vertex_matches (b\<lparr>texCoords := ts\<rparr>) (v, n, t') e i = vertex_matches b (v, n, t) e i"
  by (simp add: vertex_matches_def split: option.splits)

section \<open>Index validity\<close>

lemma unat_index_le: "unat (of_nat i :: GLushort) \<le> i"
  by (simp add: unat_of_nat)

lemma emit_index_valid:
  assumes "j < nNumVerts b" "\<forall>k < nNumIndexes b. unat (indexes b k) < nNumVerts b"
  shows "\<forall>k < nNumIndexes (emit_index b j). unat (indexes (emit_index b j) k) < nNumVerts (emit_index b j)"
  using assms le_less_trans [OF unat_index_le [of j]] by (auto simp: less_Suc_eq)

lemma append_vertex_valid:
  assumes "\<forall>k < nNumIndexes b. unat (indexes b k) < nNumVerts b"
  shows "\<forall>k < nNumIndexes (append_vertex b c).
           unat (indexes (append_vertex b c) k) < nNumVerts (append_vertex b c)"
  using assms le_imp_less_Suc [OF unat_index_le [of "nNumVerts b"]]
  by (auto simp: less_Suc_eq)

lemma add_corner_valid:
  assumes "\<forall>k < nNumIndexes b. unat (indexes b k) < nNumVerts b"
  shows "\<forall>k < nNumIndexes (add_corner start e b c).
           unat (indexes (add_corner start e b c) k) < nNumVerts (add_corner start e b c)"
proof (rule add_corner_cases [where start = start and b = b and c = c and e = e])
  fix j assume "j < nNumVerts b" "add_corner start e b c = emit_index b j"
  then show ?thesis using emit_index_valid [OF _ assms] by simp
next
  assume "add_corner start e b c = append_vertex b c"
  then show ?thesis using append_vertex_valid [OF assms] by simp
next
  assume "add_corner start e b c = b"
  then show ?thesis using assms by simp
qed

lemma foldl_add_corner_valid:
  "\<forall>k < nNumIndexes b. unat (indexes b k) < nNumVerts b \<Longrightarrow>
   \<forall>k < nNumIndexes (foldl (add_corner start e) b cs).
      unat (indexes (foldl (add_corner start e) b cs) k) < nNumVerts (foldl (add_corner start e) b cs)"
proof (induction cs arbitrary: b)
  case Nil
  then show ?case by simp
next
  case (Cons c cs)
  from Cons.IH [OF add_corner_valid [OF Cons.prems]] show ?case by simp
qed

lemma AddTriangle_valid:
  assumes "\<forall>k < nNumIndexes b. unat (indexes b k) < nNumVerts b"
  shows "\<forall>k < nNumIndexes (fst (AddTriangle b vs vn vt e r)).
           unat (indexes (fst (AddTriangle b vs vn vt e r)) k)
             < nNumVerts (fst (AddTriangle b vs vn vt e r))"
proof (cases "nNumIndexes b < nMaxIndexes b")
  case True
  have "\<forall>k < nNumIndexes (release_channels b (normalize_normals vn) vt).
          unat (indexes (release_channels b (normalize_normals vn) vt) k)
            < nNumVerts (release_channels b (normalize_normals vn) vt)"
    using assms by simp
  from foldl_add_corner_valid [OF this] show ?thesis
    unfolding AddTriangle_not_dropped [OF True] .
next
  case False
  then show ?thesis using assms by (simp add: AddTriangle_def)
qed

lemma AddTriangles_valid:
  "\<forall>k < nNumIndexes b. unat (indexes b k) < nNumVerts b \<Longrightarrow>
   \<forall>k < nNumIndexes (AddTriangles b calls).
      unat (indexes (AddTriangles b calls) k) < nNumVerts (AddTriangles b calls)"
proof (induction b calls rule: AddTriangles.induct)
  case (1 b)
  then show ?case by simp
next
  case (2 b vs vNorms vTexCoords epsilon nCheckRange calls)
  from 2(1) [OF AddTriangle_valid [OF 2(2)]] show ?case by simp
qed

text \<open>
  C4. After any sequence of \<^verbatim>\<open>AddTriangle\<close> calls on a batch begun with \<^verbatim>\<open>BeginMesh\<close>,
  every emitted index \<open>k\<close> in \<open>[0, I)\<close> holds a value below the current vertex count \<open>V\<close>
  (an index is an unsigned 16-bit number, so it is at least 0).
\<close>

theorem emitted_indexes_below_vertex_count:
  "\<forall>k < nNumIndexes (AddTriangles (BeginMesh b nMaxVerts) calls).
     unat (indexes (AddTriangles (BeginMesh b nMaxVerts) calls) k)
       < nNumVerts (AddTriangles (BeginMesh b nMaxVerts) calls)"
  by (rule AddTriangles_valid) (simp add: BeginMesh_def)

theorem emitted_indexes_below_vertex_count_witness:
  "(4 :: nat) < nNumIndexes (AddTriangles (BeginMesh GLTriangleBatch 64)
       [(tri_S1, None, None, 1 / 1000, 64), (tri_S1, None, None, 1 / 1000, 64)]) \<and>
   unat (indexes (AddTriangles (BeginMesh GLTriangleBatch 64)
       [(tri_S1, None, None, 1 / 1000, 64), (tri_S1, None, None, 1 / 1000, 64)]) 4)
     < nNumVerts (AddTriangles (BeginMesh GLTriangleBatch 64)
       [(tri_S1, None, None, 1 / 1000, 64), (tri_S1, None, None, 1 / 1000, 64)])"
proof -
  have h: "(4 :: nat) < nNumIndexes (AddTriangles (BeginMesh GLTriangleBatch 64)
       [(tri_S1, None, None, 1 / 1000, 64), (tri_S1, None, None, 1 / 1000, 64)])"
    by (simp add: eval_defs)
  from h emitted_indexes_below_vertex_count [of GLTriangleBatch 64
      "[(tri_S1, None, None, 1 / 1000, 64), (tri_S1, None, None, 1 / 1000, 64)]"]
  show ?thesis by blast
qed

section \<open>Vertex count against capacity\<close>

text \<open>
  The vertex count, unlike the index count, stays within the capacity: a vertex is stored
  only behind the test \<open>nNumVerts < nMaxIndexes\<close> of line 248.
\<close>

lemma add_corner_vertex_capacity:
  "nNumVerts b \<le> nMaxIndexes b \<Longrightarrow>
   nNumVerts (add_corner start e b c) \<le> nMaxIndexes (add_corner start e b c)"
  by (rule add_corner_cases [where start = start and b = b and c = c and e = e]) simp_all

lemma foldl_add_corner_vertex_capacity:
  "nNumVerts b \<le> nMaxIndexes b \<Longrightarrow>
   nNumVerts (foldl (add_corner start e) b cs) \<le> nMaxIndexes (foldl (add_corner start e) b cs)"
proof (induction cs arbitrary: b)
  case Nil
  then show ?case by simp
next
  case (Cons c cs)
  from Cons.IH [OF add_corner_vertex_capacity [OF Cons.prems]] show ?case by simp
qed

lemma AddTriangle_vertex_capacity:
  assumes "nNumVerts b \<le> nMaxIndexes b"
  shows "nNumVerts (fst (AddTriangle b vs vn vt e r)) \<le> nMaxIndexes (fst (AddTriangle b vs vn vt e r))"
proof (cases "nNumIndexes b < nMaxIndexes b")
  case True
  have "nNumVerts (release_channels b (normalize_normals vn) vt)
          \<le> nMaxIndexes (release_channels b (normalize_normals vn) vt)"
    using assms by simp
  from foldl_add_corner_vertex_capacity [OF this] show ?thesis
    unfolding AddTriangle_not_dropped [OF True] .
next
  case False
  then show ?thesis using assms by (simp add: AddTriangle_def)
qed

lemma AddTriangles_vertex_capacity:
  "nNumVerts b \<le> nMaxIndexes b \<Longrightarrow>
   nNumVerts (AddTriangles b calls) \<le> nMaxIndexes (AddTriangles b calls)"
proof (induction b calls rule: AddTriangles.induct)
  case (1 b)
  then show ?case by simp
next
  case (2 b vs vNorms vTexCoords epsilon nCheckRange calls)
  from 2(1) [OF AddTriangle_vertex_capacity [OF 2(2)]] show ?case by simp
qed

lemma vertex_count_within_capacity:
  "nNumVerts (AddTriangles (BeginMesh b nMaxVerts) calls)
     \<le> nMaxIndexes (AddTriangles (BeginMesh b nMaxVerts) calls)"
  by (rule AddTriangles_vertex_capacity) (simp add: BeginMesh_def)

section \<open>Release of a channel\<close>

text \<open>
  C6. As stated (any call that receives a null normals argument clears the channel) the
  claim does not hold: a call that is dropped at the entry capacity check returns before the
  release step, and the normals block stays allocated.
\<close>

theorem dropped_call_keeps_normals:
  "pNorms (fst (AddTriangle
     (fst (AddTriangle (BeginMesh GLTriangleBatch 3) tri_S1
             (Some ((0, 0, 1), (0, 0, 1), (0, 0, 1))) None (1 / 1000) 64))
     tri_S1 None None (1 / 1000) 64)) = Block"
  by (simp add: eval_defs m3dNormalizeVector3_def)

text \<open>
  C6, amended. Once an \<^verbatim>\<open>AddTriangle\<close> call that is not dropped at the entry capacity check
  receives a null normals (respectively texcoords) argument, the pointer of that channel is
  null after the call and after every later sequence of \<^verbatim>\<open>AddTriangle\<close> calls, whatever
  their arguments; and matching against that batch does not depend on the normal
  (respectively texture coordinate) of the corner or on the contents of the released store.
\<close>

theorem released_channel_stays_released:
  assumes "nNumIndexes b < nMaxIndexes b"
  shows
    "(vNorms = None \<longrightarrow>
        pNorms (AddTriangles (fst (AddTriangle b vs vNorms vTexCoords epsilon nCheckRange)) calls)
          = Null \<and>
        (\<forall>v n n' t ns e i.
           vertex_matches
             ((AddTriangles (fst (AddTriangle b vs vNorms vTexCoords epsilon nCheckRange)) calls)
                \<lparr>norms := ns\<rparr>) (v, n', t) e i =
           vertex_matches
             (AddTriangles (fst (AddTriangle b vs vNorms vTexCoords epsilon nCheckRange)) calls)
             (v, n, t) e i)) \<and>
     (vTexCoords = None \<longrightarrow>
        pTexCoords (AddTriangles (fst (AddTriangle b vs vNorms vTexCoords epsilon nCheckRange)) calls)
          = Null \<and>
        (\<forall>v n t t' ts e i.
           vertex_matches
             ((AddTriangles (fst (AddTriangle b vs vNorms vTexCoords epsilon nCheckRange)) calls)
                \<lparr>texCoords := ts\<rparr>) (v, n, t') e i =
           vertex_matches
             (AddTriangles (fst (AddTriangle b vs vNorms vTexCoords epsilon nCheckRange)) calls)
             (v, n, t) e i))"
proof (intro conjI impI allI)
  assume n: "vNorms = None"
  have "pNorms (fst (AddTriangle b vs vNorms vTexCoords epsilon nCheckRange)) = Null"
    using n assms by (simp add: AddTriangle_not_dropped del: foldl.simps)
  then show p: "pNorms (AddTriangles (fst (AddTriangle b vs vNorms vTexCoords epsilon nCheckRange)) calls)
      = Null"
    by (rule AddTriangles_pNorms_Null)
  fix v n n' t ns e i
  from vertex_matches_no_normals [OF p]
  show "vertex_matches
          ((AddTriangles (fst (AddTriangle b vs vNorms vTexCoords epsilon nCheckRange)) calls)
             \<lparr>norms := ns\<rparr>) (v, n', t) e i =
        vertex_matches
          (AddTriangles (fst (AddTriangle b vs vNorms vTexCoords epsilon nCheckRange)) calls)
          (v, n, t) e i" .
next
  assume t: "vTexCoords = None"
  have "pTexCoords (fst (AddTriangle b vs vNorms vTexCoords epsilon nCheckRange)) = Null"
    using t assms by (simp add: AddTriangle_not_dropped del: foldl.simps)
  then show p: "pTexCoords (AddTriangles (fst (AddTriangle b vs vNorms vTexCoords epsilon nCheckRange)) calls)
      = Null"
    by (rule AddTriangles_pTexCoords_Null)
  fix v n t t' ts e i
  from vertex_matches_no_texCoords [OF p]
  show "vertex_matches
          ((AddTriangles (fst (AddTriangle b vs vNorms vTexCoords epsilon nCheckRange)) calls)
             \<lparr>texCoords := ts\<rparr>) (v, n, t') e i =
        vertex_matches
          (AddTriangles (fst (AddTriangle b vs vNorms vTexCoords epsilon nCheckRange)) calls)
          (v, n, t) e i" .
qed

theorem released_channel_stays_released_witness:
  "nNumIndexes (BeginMesh GLTriangleBatch 64) < nMaxIndexes (BeginMesh GLTriangleBatch 64) \<and>
   pNorms (AddTriangles (fst (AddTriangle (BeginMesh GLTriangleBatch 64) tri_S1 None None (1 / 1000) 64))
     [(tri_S1, Some ((0, 0, 1), (0, 0, 1), (0, 0, 1)), Some ((0, 0), (1, 0), (0, 1)), 1 / 1000, 64)])
     = Null \<and>
   pTexCoords (AddTriangles (fst (AddTriangle (BeginMesh GLTriangleBatch 64) tri_S1 None None (1 / 1000) 64))
     [(tri_S1, Some ((0, 0, 1), (0, 0, 1), (0, 0, 1)), Some ((0, 0), (1, 0), (0, 1)), 1 / 1000, 64)])
     = Null"
proof -
  have h: "nNumIndexes (BeginMesh GLTriangleBatch 64) < nMaxIndexes (BeginMesh GLTriangleBatch 64)"
    by (simp add: BeginMesh_def)
  from released_channel_stays_released [OF h, where vNorms = None and vTexCoords = None
      and vs = tri_S1 and epsilon = "1 / 1000" and nCheckRange = 64 and calls =
      "[(tri_S1, Some ((0, 0, 1), (0, 0, 1), (0, 0, 1)), Some ((0, 0), (1, 0), (0, 1)), 1 / 1000, 64)]"]
  show ?thesis using h by blast
qed

section \<open>Index count per call\<close>

lemma to_int32_le: "- (2 ^ 31) \<le> x \<Longrightarrow> to_int32 x \<le> x"
proof -
  assume "- (2 ^ 31) \<le> x"
  then have "0 \<le> x + 2 ^ 31" by simp
  then have "(x + 2 ^ 31) mod 2 ^ 32 \<le> x + 2 ^ 31" by (rule zmod_le_nonneg_dividend)
  then show ?thesis by (simp add: to_int32_def)
qed

lemma to_int32_id: "- (2 ^ 31) \<le> x \<Longrightarrow> x < 2 ^ 31 \<Longrightarrow> to_int32 x = x"
  by (simp add: to_int32_def mod_pos_pos_trivial)

lemma search_start_le:
  assumes "0 \<le> r" "r < 2 ^ 31"
  shows "search_start V r \<le> V"
proof -
  have "- (2 ^ 31) \<le> int V - r" using assms by simp
  from to_int32_le [OF this] have "to_int32 (int V - r) \<le> int V" using assms by simp
  then show ?thesis by (simp add: search_start_def Let_def nat_le_iff)
qed

lemma add_corner_emits:
  assumes "start \<le> nNumVerts b" "\<not> corner_dropped start e b c"
  shows "nNumIndexes (add_corner start e b c) = nNumIndexes b + 1 \<and>
         nNumVerts b \<le> nNumVerts (add_corner start e b c)"
proof (rule add_corner_cases [where start = start and b = b and c = c and e = e])
  fix j assume "add_corner start e b c = emit_index b j"
  then show ?thesis by simp
next
  assume "add_corner start e b c = append_vertex b c"
  then show ?thesis by simp
next
  assume nm: "\<forall>k. start \<le> k \<and> k < nNumVerts b \<longrightarrow> \<not> vertex_matches b c e k"
    and cap: "\<not> (start \<le> nNumVerts b \<and> nNumVerts b < nMaxIndexes b \<and> nNumIndexes b < nMaxIndexes b)"
  have "scan b c e start = (nNumVerts b, b)"
    using scan_no_match [OF nm] assms(1) by (simp add: max_def)
  then have "corner_dropped start e b c"
    using cap assms(1) by (simp add: corner_dropped_def)
  with assms(2) show ?thesis by simp
qed

lemma foldl_add_corner_emits:
  "start \<le> nNumVerts b \<Longrightarrow> \<not> corners_truncated start e b cs \<Longrightarrow>
   nNumIndexes (foldl (add_corner start e) b cs) = nNumIndexes b + length cs"
proof (induction cs arbitrary: b)
  case Nil
  then show ?case by simp
next
  case (Cons c cs)
  from Cons.prems have nd: "\<not> corner_dropped start e b c"
    and nt: "\<not> corners_truncated start e (add_corner start e b c) cs"
    by simp_all
  from add_corner_emits [OF Cons.prems(1) nd]
  have i: "nNumIndexes (add_corner start e b c) = nNumIndexes b + 1"
    and v: "start \<le> nNumVerts (add_corner start e b c)"
    using Cons.prems(1) by simp_all
  from Cons.IH [OF v nt] i show ?case by simp
qed

lemma AddTriangle_emits_three:
  assumes "\<not> call_dropped b" "\<not> call_truncated b vs vn vt e r" "0 \<le> r" "r < 2 ^ 31"
  shows "nNumIndexes (fst (AddTriangle b vs vn vt e r)) = nNumIndexes b + 3"
proof -
  from assms(1) have nd: "nNumIndexes b < nMaxIndexes b" by (simp add: call_dropped_def)
  have s: "search_start (nNumVerts b) r \<le> nNumVerts (release_channels b (normalize_normals vn) vt)"
    using search_start_le [OF assms(3,4)] by simp
  have t: "\<not> corners_truncated (search_start (nNumVerts b) r) e
              (release_channels b (normalize_normals vn) vt)
              (map (corner_at vs (normalize_normals vn) vt) [0, 1, 2])"
    using assms(2) by (simp add: call_truncated_def Let_def del: corners_truncated.simps)
  from foldl_add_corner_emits [OF s t] show ?thesis
    unfolding AddTriangle_not_dropped [OF nd] by simp
qed

lemma AddTriangles_prefix_count:
  "\<not> capacity_loss b calls \<Longrightarrow>
   \<forall>(vs, vn, vt, e, r) \<in> set calls. 0 \<le> r \<and> r < 2 ^ 31 \<Longrightarrow>
   n \<le> length calls \<Longrightarrow>
   nNumIndexes (AddTriangles b (take n calls)) = nNumIndexes b + 3 * n"
proof (induction b calls arbitrary: n rule: AddTriangles.induct)
  case (1 b)
  then show ?case by simp
next
  case (2 b vs vNorms vTexCoords epsilon nCheckRange calls)
  show ?case
  proof (cases n)
    case 0
    then show ?thesis by simp
  next
    case (Suc m)
    from 2(2) have nd: "\<not> call_dropped b"
      and nt: "\<not> call_truncated b vs vNorms vTexCoords epsilon nCheckRange"
      and rest: "\<not> capacity_loss (fst (AddTriangle b vs vNorms vTexCoords epsilon nCheckRange)) calls"
      by simp_all
    from 2(3) have r: "0 \<le> nCheckRange" "nCheckRange < 2 ^ 31"
      and rs: "\<forall>(vs, vn, vt, e, r) \<in> set calls. 0 \<le> r \<and> r < 2 ^ 31"
      by simp_all
    from 2(4) Suc have m: "m \<le> length calls" by simp
    from 2(1) [OF rest rs m] AddTriangle_emits_three [OF nd nt r] Suc
    show ?thesis by simp
  qed
qed

text \<open>
  A search start beyond \<open>nNumVerts\<close> (it arises from a negative \<open>nCheckRange\<close> only): the
  inner loop does not run and the test \<^verbatim>\<open>iMatch == nNumVerts\<close> of line 248 fails, so the
  corner is neither matched nor stored.
\<close>

lemma add_corner_beyond:
  "nNumVerts b < start \<Longrightarrow> add_corner start e b c = b"
  by (rule add_corner_cases [where start = start and b = b and c = c and e = e]) simp_all

lemma foldl_add_corner_beyond:
  "nNumVerts b < start \<Longrightarrow> foldl (add_corner start e) b cs = b"
  by (induction cs) (simp_all add: add_corner_beyond)

lemma AddTriangle_emits_zero_or_three:
  assumes "\<not> call_dropped b" "\<not> call_truncated b vs vn vt e r"
  shows "nNumIndexes (fst (AddTriangle b vs vn vt e r)) = nNumIndexes b + 3 \<or>
         nNumIndexes (fst (AddTriangle b vs vn vt e r)) = nNumIndexes b"
proof -
  from assms(1) have nd: "nNumIndexes b < nMaxIndexes b" by (simp add: call_dropped_def)
  let ?b1 = "release_channels b (normalize_normals vn) vt"
  show ?thesis
  proof (cases "search_start (nNumVerts b) r \<le> nNumVerts b")
    case True
    then have s: "search_start (nNumVerts b) r \<le> nNumVerts ?b1" by simp
    have t: "\<not> corners_truncated (search_start (nNumVerts b) r) e ?b1
                (map (corner_at vs (normalize_normals vn) vt) [0, 1, 2])"
      using assms(2) by (simp add: call_truncated_def Let_def del: corners_truncated.simps)
    from foldl_add_corner_emits [OF s t] show ?thesis
      unfolding AddTriangle_not_dropped [OF nd] by simp
  next
    case False
    then have "nNumVerts ?b1 < search_start (nNumVerts b) r" by simp
    then have "foldl (add_corner (search_start (nNumVerts b) r) e) ?b1
                 (map (corner_at vs (normalize_normals vn) vt) [0, 1, 2]) = ?b1"
      by (rule foldl_add_corner_beyond)
    then show ?thesis
      unfolding AddTriangle_not_dropped [OF nd] by (simp only: release_channels_simps simp_thms)
  qed
qed

lemma AddTriangles_multiple_of_three:
  "\<not> capacity_loss b calls \<Longrightarrow> 3 dvd nNumIndexes b \<Longrightarrow>
   3 dvd nNumIndexes (AddTriangles b calls)"
proof (induction b calls rule: AddTriangles.induct)
  case (1 b)
  then show ?case by simp
next
  case (2 b vs vNorms vTexCoords epsilon nCheckRange calls)
  from 2(2) have nd: "\<not> call_dropped b"
    and nt: "\<not> call_truncated b vs vNorms vTexCoords epsilon nCheckRange"
    and rest: "\<not> capacity_loss (fst (AddTriangle b vs vNorms vTexCoords epsilon nCheckRange)) calls"
    by simp_all
  from AddTriangle_emits_zero_or_three [OF nd nt] 2(3)
  have "3 dvd nNumIndexes (fst (AddTriangle b vs vNorms vTexCoords epsilon nCheckRange))"
    by auto
  from 2(1) [OF rest this] show ?case by simp
qed

text \<open>
  Whatever the ranges, without capacity loss \<open>I\<close> is a multiple of 3 between the calls of
  a batch begun with \<^verbatim>\<open>BeginMesh\<close>.
\<close>

lemma index_count_multiple_of_three:
  "\<not> capacity_loss (BeginMesh b nMaxVerts) calls \<Longrightarrow>
   3 dvd nNumIndexes (AddTriangles (BeginMesh b nMaxVerts) calls)"
  by (rule AddTriangles_multiple_of_three) (simp_all add: BeginMesh_def)

text \<open>
  When every call has \<open>0 \<le> nCheckRange\<close> (below \<open>2^31\<close>, it is an \<^verbatim>\<open>int\<close>) and no call was
  dropped or truncated for capacity, \<open>I\<close> is three times the number of calls after every
  call: each call increases \<open>I\<close> by exactly 3.
\<close>

lemma index_count_three_per_call:
  assumes "\<not> capacity_loss (BeginMesh b nMaxVerts) calls"
    and "\<forall>(vs, vn, vt, e, r) \<in> set calls. 0 \<le> r \<and> r < 2 ^ 31"
  shows "\<forall>n \<le> length calls.
           nNumIndexes (AddTriangles (BeginMesh b nMaxVerts) (take n calls)) = 3 * n"
proof (intro allI impI)
  fix n assume "n \<le> length calls"
  from AddTriangles_prefix_count [OF assms this] show
    "nNumIndexes (AddTriangles (BeginMesh b nMaxVerts) (take n calls)) = 3 * n"
    by (simp add: BeginMesh_def)
qed

lemma index_count_three_per_call_example:
  "\<not> capacity_loss (BeginMesh GLTriangleBatch 64)
       [(tri_S1, None, None, 1 / 1000, 64), (tri_point, None, None, 1 / 1000, 64)] \<and>
   nNumIndexes (AddTriangles (BeginMesh GLTriangleBatch 64)
       [(tri_S1, None, None, 1 / 1000, 64), (tri_point, None, None, 1 / 1000, 64)]) = 6"
proof -
  have h1: "\<not> capacity_loss (BeginMesh GLTriangleBatch 64)
       [(tri_S1, None, None, 1 / 1000, 64), (tri_point, None, None, 1 / 1000, 64)]"
    by (simp add: eval_defs call_dropped_def call_truncated_def corner_dropped_def)
  have h2: "\<forall>(vs, vn, vt, e, r) \<in> set [(tri_S1, None, None, 1 / 1000, 64 :: int),
        (tri_point, None :: M3DVector3f tri option, None :: M3DVector2f tri option, 1 / 1000 :: GLfloat, 64)].
      0 \<le> r \<and> r < 2 ^ 31"
    by simp
  from index_count_three_per_call [OF h1 h2, rule_format, of 2] h1
  show ?thesis by simp
qed

text \<open>
  C7. The claim: when no call was dropped or truncated for capacity, every call increases
  \<open>I\<close> by exactly 3. The code does not for a negative \<open>nCheckRange\<close>: on a batch begun with
  capacity 6, the call with the triangle of scenario S1 and \<open>nCheckRange = -1\<close> is neither
  dropped nor truncated for capacity, yet none of its three unmatched corners is added
  (lines 247 and 248 mean to add them): \<open>I\<close> and \<open>V\<close> are still 0 after the call.
\<close>

theorem negative_range_emits_nothing:
  "\<not> capacity_loss (BeginMesh GLTriangleBatch 6) [(tri_S1, None, None, 1 / 1000, - 1)] \<and>
   nNumIndexes (AddTriangles (BeginMesh GLTriangleBatch 6) [(tri_S1, None, None, 1 / 1000, - 1)])
     \<noteq> nNumIndexes (BeginMesh GLTriangleBatch 6) + 3 \<and>
   nNumIndexes (AddTriangles (BeginMesh GLTriangleBatch 6) [(tri_S1, None, None, 1 / 1000, - 1)]) = 0 \<and>
   nNumVerts (AddTriangles (BeginMesh GLTriangleBatch 6) [(tri_S1, None, None, 1 / 1000, - 1)]) = 0"
  by (simp add: eval_defs call_dropped_def call_truncated_def corner_dropped_def)

section \<open>Persistence\<close>

lemma le_bytes_four:
  "le_bytes 4 v =
     [of_nat (v mod 256), of_nat (v div 256 mod 256), of_nat (v div 256 div 256 mod 256),
      of_nat (v div 256 div 256 div 256 mod 256)]"
proof -
  have "(4 :: nat) = Suc (Suc (Suc (Suc 0)))" by simp
  then show ?thesis by (simp only: le_bytes.simps)
qed

lemma read_member_four:
  "read_member m (a # b # c # d # rest) =
     (unat a + 256 * (unat b + 256 * (unat c + 256 * unat d)), rest)"
  by (simp add: read_member_def fread_def le_bytes_four)

lemma read_member_eof: "read_member 0 [] = (0, [])"
  by (simp add: read_member_def fread_def le_bytes_four)

lemma fread_zero: "fread 0 f = (0, [], f)"
  by (simp add: fread_def)

lemma fread_twelve:
  "fread 12 (a0 # a1 # a2 # a3 # a4 # a5 # a6 # a7 # a8 # a9 # a10 # a11 # rest) =
     (1, [a0, a1, a2, a3, a4, a5, a6, a7, a8, a9, a10, a11], rest)"
  by (simp add: fread_def)

lemma load_required_short_channel:
  "load_required GLTriangleBatch file_short_channel =
     (0, 1, 0, [], [0, 0, 128, 63, 0, 0, 0, 0, 0, 0, 0, 0], [1, 2, 3])"
  by (simp add: load_required_def file_short_channel_def read_member_four fread_zero
        fread_twelve)

lemma load_required_empty: "load_required GLTriangleBatch [] = (0, 0, 0, [], [], [])"
  by (simp add: load_required_def read_member_eof fread_zero GLTriangleBatch_def)

lemma load_channel_short:
  "wanted \<Longrightarrow> length pFile < nbytes \<Longrightarrow> fst (load_channel wanted p nbytes pFile) = Null"
  by (simp add: load_channel_def fread_def)

lemma LoadMesh_nNumVerts:
  "nNumVerts (fst (snd (LoadMesh b pFile bN bT))) = fst (snd (load_required b pFile))"
  by (simp add: LoadMesh_def split: prod.splits)

lemma LoadMesh_pNorms:
  "pNorms (fst (snd (LoadMesh b pFile bN bT))) =
     (let p = fst (load_channel bN (pNorms b) (12 * fst (snd (load_required b pFile)))
                (normals_stream b pFile))
      in if nonnull p then Dangling else p)"
  by (simp add: LoadMesh_def normals_stream_def Let_def split: prod.splits)

lemma LoadMesh_normalData:
  "normalData (fst (snd (LoadMesh b pFile bN bT))) =
     (case load_channel bN (pNorms b) (12 * fst (snd (load_required b pFile)))
             (normals_stream b pFile) of
        (p, bytes, rest) \<Rightarrow>
          if nonnull p then Some (12 * fst (snd (load_required b pFile)), bytes) else normalData b)"
  by (simp add: LoadMesh_def normals_stream_def Let_def split: prod.splits)

lemma LoadMesh_pTexCoords:
  "pTexCoords (fst (snd (LoadMesh b pFile bN bT))) =
     (let p = fst (load_channel bT (pTexCoords b) (8 * fst (snd (load_required b pFile)))
                (texcoords_stream b pFile bN))
      in if nonnull p then Dangling else p)"
  by (simp add: LoadMesh_def texcoords_stream_def Let_def split: prod.splits)

lemma LoadMesh_textureData:
  "textureData (fst (snd (LoadMesh b pFile bN bT))) =
     (case load_channel bT (pTexCoords b) (8 * fst (snd (load_required b pFile)))
             (texcoords_stream b pFile bN) of
        (p, bytes, rest) \<Rightarrow>
          if nonnull p then Some (8 * fst (snd (load_required b pFile)), bytes) else textureData b)"
  by (simp add: LoadMesh_def texcoords_stream_def Let_def split: prod.splits)

lemma LoadMesh_returns_true: "fst (LoadMesh b pFile bN bT)"
  by (simp add: LoadMesh_def split: prod.splits)

text \<open>
  C9. \<^verbatim>\<open>LoadMesh\<close> always returns true. When normals (respectively texture coordinates)
  were asked for and the stream holds fewer bytes than the block of that channel at the
  point where it is read, the pointer of the channel is null after the load and no buffer
  is uploaded for it.
\<close>

theorem LoadMesh_tolerates_short_channel:
  "fst (LoadMesh b pFile bNormals bTexCoords) \<and>
   (bNormals \<and>
    length (normals_stream b pFile)
      < 12 * nNumVerts (fst (snd (LoadMesh b pFile bNormals bTexCoords))) \<longrightarrow>
      pNorms (fst (snd (LoadMesh b pFile bNormals bTexCoords))) = Null \<and>
      normalData (fst (snd (LoadMesh b pFile bNormals bTexCoords))) = normalData b) \<and>
   (bTexCoords \<and>
    length (texcoords_stream b pFile bNormals)
      < 8 * nNumVerts (fst (snd (LoadMesh b pFile bNormals bTexCoords))) \<longrightarrow>
      pTexCoords (fst (snd (LoadMesh b pFile bNormals bTexCoords))) = Null \<and>
      textureData (fst (snd (LoadMesh b pFile bNormals bTexCoords))) = textureData b)"
proof (intro conjI impI)
  show "fst (LoadMesh b pFile bNormals bTexCoords)" by (rule LoadMesh_returns_true)
next
  assume "bNormals \<and> length (normals_stream b pFile)
      < 12 * nNumVerts (fst (snd (LoadMesh b pFile bNormals bTexCoords)))"
  then have "fst (load_channel bNormals (pNorms b) (12 * fst (snd (load_required b pFile)))
                (normals_stream b pFile)) = Null"
    by (simp add: LoadMesh_nNumVerts load_channel_short)
  then obtain bytes rest where
    "load_channel bNormals (pNorms b) (12 * fst (snd (load_required b pFile)))
       (normals_stream b pFile) = (Null, bytes, rest)"
    by (metis fst_conv surj_pair)
  then show "pNorms (fst (snd (LoadMesh b pFile bNormals bTexCoords))) = Null"
    and "normalData (fst (snd (LoadMesh b pFile bNormals bTexCoords))) = normalData b"
    by (simp_all add: LoadMesh_pNorms LoadMesh_normalData)
next
  assume "bTexCoords \<and> length (texcoords_stream b pFile bNormals)
      < 8 * nNumVerts (fst (snd (LoadMesh b pFile bNormals bTexCoords)))"
  then have "fst (load_channel bTexCoords (pTexCoords b) (8 * fst (snd (load_required b pFile)))
                (texcoords_stream b pFile bNormals)) = Null"
    by (simp add: LoadMesh_nNumVerts load_channel_short)
  then obtain bytes rest where
    "load_channel bTexCoords (pTexCoords b) (8 * fst (snd (load_required b pFile)))
       (texcoords_stream b pFile bNormals) = (Null, bytes, rest)"
    by (metis fst_conv surj_pair)
  then show "pTexCoords (fst (snd (LoadMesh b pFile bNormals bTexCoords))) = Null"
    and "textureData (fst (snd (LoadMesh b pFile bNormals bTexCoords))) = textureData b"
    by (simp_all add: LoadMesh_pTexCoords LoadMesh_textureData)
qed

lemmas load_defs =
  LoadMesh_def load_required_short_channel load_required_empty load_channel_def fread_def
  normals_stream_def texcoords_stream_def

theorem LoadMesh_tolerates_short_channel_witness:
  "length (normals_stream GLTriangleBatch file_short_channel)
     < 12 * nNumVerts (fst (snd (LoadMesh GLTriangleBatch file_short_channel True True))) \<and>
   length (texcoords_stream GLTriangleBatch file_short_channel True)
     < 8 * nNumVerts (fst (snd (LoadMesh GLTriangleBatch file_short_channel True True))) \<and>
   fst (LoadMesh GLTriangleBatch file_short_channel True True) \<and>
   nNumVerts (fst (snd (LoadMesh GLTriangleBatch file_short_channel True True))) = 1 \<and>
   pNorms (fst (snd (LoadMesh GLTriangleBatch file_short_channel True True))) = Null \<and>
   pTexCoords (fst (snd (LoadMesh GLTriangleBatch file_short_channel True True))) = Null"
proof -
  have v: "nNumVerts (fst (snd (LoadMesh GLTriangleBatch file_short_channel True True))) = 1"
    by (simp add: load_defs)
  have n: "length (normals_stream GLTriangleBatch file_short_channel)
     < 12 * nNumVerts (fst (snd (LoadMesh GLTriangleBatch file_short_channel True True)))"
    unfolding v by (simp add: load_defs)
  have t: "length (texcoords_stream GLTriangleBatch file_short_channel True)
     < 8 * nNumVerts (fst (snd (LoadMesh GLTriangleBatch file_short_channel True True)))"
    unfolding v by (simp add: load_defs)
  from LoadMesh_tolerates_short_channel [of GLTriangleBatch file_short_channel True True] v n t
  show ?thesis by blast
qed

text \<open>
  C8. \<^verbatim>\<open>SaveMesh\<close> writes nothing: for the batch of scenario S1 (three unique vertices,
  three indices after one triangle) the file is still empty after \<^verbatim>\<open>SaveMesh\<close>, and
  \<^verbatim>\<open>LoadMesh\<close> of that file into a fresh batch leaves \<open>V = 0\<close> and \<open>I = 0\<close> and uploads
  empty buffers.
\<close>

theorem SaveMesh_LoadMesh_loses_mesh:
  "nNumVerts (fst (AddTriangle (BeginMesh GLTriangleBatch 64) tri_S1 None None (1 / 1000) 64)) = 3 \<and>
   nNumIndexes (fst (AddTriangle (BeginMesh GLTriangleBatch 64) tri_S1 None None (1 / 1000) 64)) = 3 \<and>
   SaveMesh (fst (AddTriangle (BeginMesh GLTriangleBatch 64) tri_S1 None None (1 / 1000) 64)) []
     = (True, []) \<and>
   nNumVerts (fst (snd (LoadMesh GLTriangleBatch
     (snd (SaveMesh (fst (AddTriangle (BeginMesh GLTriangleBatch 64) tri_S1 None None (1 / 1000) 64)) []))
     False False))) = 0 \<and>
   nNumIndexes (fst (snd (LoadMesh GLTriangleBatch
     (snd (SaveMesh (fst (AddTriangle (BeginMesh GLTriangleBatch 64) tri_S1 None None (1 / 1000) 64)) []))
     False False))) = 0 \<and>
   vertexData (fst (snd (LoadMesh GLTriangleBatch
     (snd (SaveMesh (fst (AddTriangle (BeginMesh GLTriangleBatch 64) tri_S1 None None (1 / 1000) 64)) []))
     False False))) = Some (0, [])"
proof (intro conjI)
  show "nNumVerts (fst (AddTriangle (BeginMesh GLTriangleBatch 64) tri_S1 None None (1 / 1000) 64)) = 3"
    and "nNumIndexes (fst (AddTriangle (BeginMesh GLTriangleBatch 64) tri_S1 None None (1 / 1000) 64)) = 3"
    by (simp_all add: eval_defs)
qed (simp_all add: SaveMesh_def load_defs)


section \<open>The corner step against the specification\<close>

lemma vertex_matches_spec: "vertex_matches b c e i = spec_matches b c e i"
proof -
  obtain v vn vt where c: "c = (v, vn, vt)" by (cases c)
  show ?thesis
    unfolding c vertex_matches_def spec_matches_def
    by (cases "pNorms b"; cases "pTexCoords b"; cases vn; cases vt) simp_all
qed

lemma find_window_Some:
  assumes "start \<le> j" "j < n" "P j" "\<forall>k. start \<le> k \<and> k < j \<longrightarrow> \<not> P k"
  shows "find P [start ..< n] = Some j"
proof -
  have "\<exists>i < length [start ..< n]. P ([start ..< n] ! i) \<and> j = [start ..< n] ! i \<and>
          (\<forall>k < i. \<not> P ([start ..< n] ! k))"
    using assms by (intro exI [of _ "j - start"]) auto
  then show ?thesis by (simp only: find_Some_iff)
qed

lemma find_window_None:
  assumes "\<forall>k. start \<le> k \<and> k < n \<longrightarrow> \<not> P k"
  shows "find P [start ..< n] = None"
  using assms by (simp add: find_None_iff)

lemma add_corner_spec:
  assumes "start \<le> nNumVerts b"
  shows "add_corner start e b c = spec_corner start e b c"
proof (rule add_corner_cases [where start = start and b = b and c = c and e = e])
  fix j
  assume "start \<le> j" "j < nNumVerts b" "vertex_matches b c e j"
    "\<forall>k. start \<le> k \<and> k < j \<longrightarrow> \<not> vertex_matches b c e k"
    and r: "add_corner start e b c = emit_index b j"
  then have "find (spec_matches b c e) [start ..< nNumVerts b] = Some j"
    by (intro find_window_Some) (simp_all add: vertex_matches_spec)
  then show ?thesis by (simp add: spec_corner_def r)
next
  assume "\<forall>k. start \<le> k \<and> k < nNumVerts b \<longrightarrow> \<not> vertex_matches b c e k"
    and cap: "nNumVerts b < nMaxIndexes b" "nNumIndexes b < nMaxIndexes b"
    and r: "add_corner start e b c = append_vertex b c"
  then have "find (spec_matches b c e) [start ..< nNumVerts b] = None"
    by (intro find_window_None) (simp add: vertex_matches_spec)
  then show ?thesis using cap by (simp add: spec_corner_def r)
next
  assume "\<forall>k. start \<le> k \<and> k < nNumVerts b \<longrightarrow> \<not> vertex_matches b c e k"
    and cap: "\<not> (start \<le> nNumVerts b \<and> nNumVerts b < nMaxIndexes b \<and> nNumIndexes b < nMaxIndexes b)"
    and r: "add_corner start e b c = b"
  then have "find (spec_matches b c e) [start ..< nNumVerts b] = None"
    by (intro find_window_None) (simp add: vertex_matches_spec)
  then show ?thesis using cap assms by (auto simp add: spec_corner_def r)
qed

lemma add_corner_nNumVerts_mono: "nNumVerts b \<le> nNumVerts (add_corner start e b c)"
  by (rule add_corner_cases [where start = start and b = b and c = c and e = e]) simp_all

lemma foldl_add_corner_spec:
  "start \<le> nNumVerts b \<Longrightarrow>
   foldl (add_corner start e) b cs = foldl (spec_corner start e) b cs"
proof (induction cs arbitrary: b)
  case Nil
  then show ?case by simp
next
  case (Cons c cs)
  have "start \<le> nNumVerts (add_corner start e b c)"
    using Cons.prems add_corner_nNumVerts_mono [of b start e c] by simp
  from Cons.IH [OF this] add_corner_spec [OF Cons.prems] show ?case by simp
qed

lemma search_start_window:
  assumes "0 \<le> r" "r < 2 ^ 31" "V < 2 ^ 31"
  shows "search_start V r = nat (max 0 (int V - r))"
proof -
  have "- (2 ^ 31) \<le> int V - r" "int V - r < 2 ^ 31" using assms by simp_all
  from to_int32_id [OF this] show ?thesis
    by (simp add: search_start_def Let_def max_def)
qed

text \<open>
  C1. As stated the claim does not hold: a corner without a match is stored only when
  \<open>V < N_max\<close> and \<open>I < N_max\<close> (line 248). With \<open>N_max = 1\<close> the call is not dropped at
  entry, its first corner is stored, and its second and third corner, which match nothing,
  are dropped: \<open>V\<close> is 1 where the claim gives 3.
\<close>

theorem unmatched_corner_dropped_at_capacity:
  "nNumIndexes (BeginMesh GLTriangleBatch 1) < nMaxIndexes (BeginMesh GLTriangleBatch 1) \<and>
   nNumVerts (fst (AddTriangle (BeginMesh GLTriangleBatch 1) tri_S1 None None (1 / 1000) 64)) = 1 \<and>
   nNumVerts (stated_AddTriangle (BeginMesh GLTriangleBatch 1) tri_S1 None None (1 / 1000) 64) = 3"
  by (simp add: eval_defs stated_AddTriangle_def stated_corner_def spec_matches_def)

text \<open>
  C1, amended. For an \<^verbatim>\<open>AddTriangle\<close> call that is not dropped at entry, with
  \<open>0 \<le> nCheckRange\<close> and \<open>V\<close> below \<open>2^31\<close>: let \<open>start = max(0, V - range)\<close> for the \<open>V\<close> at
  entry of the call. For each of the three corners in order, if some index in
  \<open>[start, V)\<close> (\<open>V\<close> the current count) matches the corner on position and on every
  present optional channel, the smallest such index is appended to the index array (as a
  16-bit value) and \<open>V\<close> is unchanged; otherwise, if \<open>V < N_max\<close> and \<open>I < N_max\<close>, the
  corner is stored at slot \<open>V\<close>, \<open>V\<close> is appended to the index array and \<open>V\<close> is
  incremented; otherwise the corner is dropped.
\<close>

theorem AddTriangle_refines_spec:
  assumes "nNumIndexes b < nMaxIndexes b"
    and "0 \<le> nCheckRange" and "nCheckRange < 2 ^ 31" and "nNumVerts b < 2 ^ 31"
  shows "fst (AddTriangle b vs vNorms vTexCoords epsilon nCheckRange) =
         spec_AddTriangle b vs vNorms vTexCoords epsilon nCheckRange"
proof -
  have w: "search_start (nNumVerts b) nCheckRange = nat (max 0 (int (nNumVerts b) - nCheckRange))"
    using assms(2-4) by (rule search_start_window)
  have "search_start (nNumVerts b) nCheckRange
          \<le> nNumVerts (release_channels b (normalize_normals vNorms) vTexCoords)"
    using search_start_le [OF assms(2,3)] by simp
  from foldl_add_corner_spec [OF this] show ?thesis
    unfolding AddTriangle_not_dropped [OF assms(1)] spec_AddTriangle_def Let_def
    by (simp only: w release_channels_simps)
qed

theorem AddTriangle_refines_spec_witness:
  "nNumIndexes (BeginMesh GLTriangleBatch 4) < nMaxIndexes (BeginMesh GLTriangleBatch 4) \<and>
   nNumVerts (fst (AddTriangle (BeginMesh GLTriangleBatch 4) tri_S1 None None (1 / 1000) 64)) = 3 \<and>
   nNumIndexes (fst (AddTriangle (BeginMesh GLTriangleBatch 4) tri_S1 None None (1 / 1000) 64)) = 3"
proof -
  have h: "nNumIndexes (BeginMesh GLTriangleBatch 4) < nMaxIndexes (BeginMesh GLTriangleBatch 4)"
    "nNumVerts (BeginMesh GLTriangleBatch 4) < 2 ^ 31"
    by (simp_all add: BeginMesh_def)
  have s: "nNumVerts (spec_AddTriangle (BeginMesh GLTriangleBatch 4) tri_S1 None None (1 / 1000) 64) = 3"
    "nNumIndexes (spec_AddTriangle (BeginMesh GLTriangleBatch 4) tri_S1 None None (1 / 1000) 64) = 3"
    by (simp_all add: eval_defs spec_AddTriangle_def spec_corner_def spec_matches_def)
  from AddTriangle_refines_spec [OF h(1) _ _ h(2), of 64 tri_S1 None None "1 / 1000"] h(1) s
  show ?thesis by simp
qed


section \<open>Deduplication of identical corners\<close>

lemma batch_extends_refl: "batch_extends s s"
  by (simp add: batch_extends_def)

lemma batch_extends_trans:
  "batch_extends s t \<Longrightarrow> batch_extends t u \<Longrightarrow> batch_extends s u"
proof -
  assume st: "batch_extends s t" and tu: "batch_extends t u"
  have v: "i < nNumVerts t" if "i < nNumVerts s" for i
    using that st by (simp add: batch_extends_def)
  have k: "k < nNumIndexes t" if "k < nNumIndexes s" for k
    using that st by (simp add: batch_extends_def)
  show ?thesis
    using st tu v k by (simp add: batch_extends_def)
qed

lemma emit_index_extends: "batch_extends b (emit_index b j)"
  by (simp add: batch_extends_def)

lemma append_vertex_extends: "batch_extends b (append_vertex b c)"
  by (cases c) (simp add: batch_extends_def append_vertex_def split: option.splits)

lemma add_corner_extends: "batch_extends b (add_corner start e b c)"
  by (rule add_corner_cases [where start = start and b = b and c = c and e = e])
    (simp_all add: emit_index_extends append_vertex_extends batch_extends_refl)

lemma foldl_add_corner_extends: "batch_extends b (foldl (add_corner start e) b cs)"
proof (induction cs arbitrary: b)
  case Nil
  show ?case by (simp add: batch_extends_refl)
next
  case (Cons c cs)
  from batch_extends_trans [OF add_corner_extends Cons.IH] show ?case by simp
qed

lemma release_channels_extends: "batch_extends b (release_channels b vn vt)"
  by (simp add: batch_extends_def)

lemma AddTriangle_extends: "batch_extends b (fst (AddTriangle b vs vn vt e r))"
proof (cases "nNumIndexes b < nMaxIndexes b")
  case True
  from batch_extends_trans [OF release_channels_extends foldl_add_corner_extends]
  show ?thesis unfolding AddTriangle_not_dropped [OF True] .
next
  case False
  then show ?thesis by (simp add: AddTriangle_def batch_extends_refl)
qed

lemma AddTriangles_extends: "batch_extends b (AddTriangles b calls)"
proof (induction b calls rule: AddTriangles.induct)
  case (1 b)
  show ?case by (simp add: batch_extends_refl)
next
  case (2 b vs vNorms vTexCoords epsilon nCheckRange calls)
  from batch_extends_trans [OF AddTriangle_extends 2] show ?case by simp
qed

lemma vertex_matches_transfer:
  assumes "batch_extends s t" "pNorms t = pNorms s" "pTexCoords t = pTexCoords s"
    "same_attributes s c c'" "i < nNumVerts s"
  shows "vertex_matches t c' e i = vertex_matches s c e i"
proof -
  obtain v vn vt where c: "c = (v, vn, vt)" by (cases c)
  obtain v' vn' vt' where c': "c' = (v', vn', vt')" by (cases c')
  from assms(1,5) have st: "verts t i = verts s i" "norms t i = norms s i"
    "texCoords t i = texCoords s i"
    by (simp_all add: batch_extends_def)
  from assms(4) have sa: "v = v'" "nonnull (pNorms s) \<longrightarrow> vn = vn'"
    "nonnull (pTexCoords s) \<longrightarrow> vt = vt'"
    by (simp_all add: same_attributes_def c c')
  show ?thesis
    unfolding c c' vertex_matches_spec spec_matches_def using sa
    by (cases "nonnull (pNorms s)"; cases "nonnull (pTexCoords s)") (simp_all add: st assms(2,3) split: option.splits)
qed

lemma close3_self: "0 < e \<Longrightarrow> close3 p p e"
  by (cases p) (simp add: close3_def m3dCloseEnough_def)

lemma close2_self: "0 < e \<Longrightarrow> close2 p p e"
  by (cases p) (simp add: close2_def m3dCloseEnough_def)

lemma append_vertex_matches_itself:
  assumes "0 < e"
    and "nonnull (pNorms s) \<longrightarrow> fst (snd c) \<noteq> None"
    and "nonnull (pTexCoords s) \<longrightarrow> snd (snd c) \<noteq> None"
  shows "vertex_matches (append_vertex s c) c e (nNumVerts s)"
proof -
  obtain v vn vt where c: "c = (v, vn, vt)" by (cases c)
  show ?thesis
    using assms unfolding c vertex_matches_spec spec_matches_def
    by (auto simp: append_vertex_def close3_self close2_self)
qed

lemma same_attributes_refl: "same_attributes s c c"
  by (simp add: same_attributes_def split: prod.splits)

lemma add_corner_first_match:
  assumes "0 < e"
    and "nonnull (pNorms s) \<longrightarrow> fst (snd c) \<noteq> None"
    and "nonnull (pTexCoords s) \<longrightarrow> snd (snd c) \<noteq> None"
    and "nNumIndexes (add_corner 0 e s c) = nNumIndexes s + 1"
  shows "\<exists>j. j < nNumVerts (add_corner 0 e s c) \<and>
           vertex_matches (add_corner 0 e s c) c e j \<and>
           (\<forall>k < j. \<not> vertex_matches (add_corner 0 e s c) c e k) \<and>
           indexes (add_corner 0 e s c) (nNumIndexes s) = of_nat j"
proof (rule add_corner_cases [where start = 0 and b = s and c = c and e = e])
  fix j
  assume j: "j < nNumVerts s" "vertex_matches s c e j"
    "\<forall>k. 0 \<le> k \<and> k < j \<longrightarrow> \<not> vertex_matches s c e k"
    and r: "add_corner 0 e s c = emit_index s j"
  have m: "vertex_matches (emit_index s j) c e i = vertex_matches s c e i" if "i < nNumVerts s" for i
    by (rule vertex_matches_transfer [OF emit_index_extends _ _ same_attributes_refl that]) simp_all
  show ?thesis
    unfolding r using j m by (intro exI [of _ j]) simp
next
  assume nm: "\<forall>k. 0 \<le> k \<and> k < nNumVerts s \<longrightarrow> \<not> vertex_matches s c e k"
    and r: "add_corner 0 e s c = append_vertex s c"
  have m: "vertex_matches (append_vertex s c) c e i = vertex_matches s c e i"
    if "i < nNumVerts s" for i
    by (rule vertex_matches_transfer [OF append_vertex_extends _ _ same_attributes_refl that])
      simp_all
  show ?thesis
    unfolding r using nm m append_vertex_matches_itself [OF assms(1-3)]
    by (intro exI [of _ "nNumVerts s"]) simp
next
  assume "add_corner 0 e s c = s"
  with assms(4) show ?thesis by simp
qed

lemma add_corner_found:
  assumes "j < nNumVerts t" "vertex_matches t c e j" "\<forall>k < j. \<not> vertex_matches t c e k"
  shows "add_corner 0 e t c = emit_index t j"
proof -
  have "scan t c e 0 = (j, emit_index t j)"
    using assms by (intro scan_match) simp_all
  then show ?thesis using assms(1) by (simp add: add_corner_def)
qed

lemma add_corner_same_index:
  assumes e: "0 < e"
    and wn: "nonnull (pNorms s) \<longrightarrow> fst (snd c) \<noteq> None"
    and wt: "nonnull (pTexCoords s) \<longrightarrow> snd (snd c) \<noteq> None"
    and em: "nNumIndexes (add_corner 0 e s c) = nNumIndexes s + 1"
    and ext: "batch_extends (add_corner 0 e s c) t"
    and pn: "pNorms t = pNorms s" and pt: "pTexCoords t = pTexCoords s"
    and sa: "same_attributes s c c'"
  shows "nNumIndexes (add_corner 0 e t c') = nNumIndexes t + 1 \<and>
         indexes (add_corner 0 e t c') (nNumIndexes t) = indexes (add_corner 0 e s c) (nNumIndexes s)"
proof -
  let ?s1 = "add_corner 0 e s c"
  from add_corner_first_match [OF e wn wt em] obtain j where
    j: "j < nNumVerts ?s1" "vertex_matches ?s1 c e j"
      "\<forall>k < j. \<not> vertex_matches ?s1 c e k" "indexes ?s1 (nNumIndexes s) = of_nat j"
    by blast
  have sa1: "same_attributes ?s1 c c'" using sa by (simp add: same_attributes_def)
  have m: "vertex_matches t c' e i = vertex_matches ?s1 c e i" if "i < nNumVerts ?s1" for i
    by (rule vertex_matches_transfer [OF ext _ _ sa1 that]) (simp_all add: pn pt)
  have jt: "j < nNumVerts t" using j(1) ext by (simp add: batch_extends_def)
  have "add_corner 0 e t c' = emit_index t j"
    using j m jt by (intro add_corner_found) simp_all
  then show ?thesis using j(4) by simp
qed

lemma add_corner_index_step:
  "nNumIndexes b \<le> nNumIndexes (add_corner start e b c) \<and>
   nNumIndexes (add_corner start e b c) \<le> nNumIndexes b + 1"
  by (rule add_corner_cases [where start = start and b = b and c = c and e = e]) simp_all

lemma foldl_add_corner_count_le:
  "nNumIndexes (foldl (add_corner start e) b cs) \<le> nNumIndexes b + length cs"
proof (induction cs arbitrary: b)
  case Nil
  show ?case by simp
next
  case (Cons c cs)
  from Cons.IH [of "add_corner start e b c"] add_corner_index_step [of b start e c]
  show ?case by simp
qed

lemma foldl_add_corner_full_split:
  assumes "nNumIndexes (foldl (add_corner start e) b (pre @ c # post))
             = nNumIndexes b + length (pre @ c # post)"
  shows "nNumIndexes (foldl (add_corner start e) b pre) = nNumIndexes b + length pre \<and>
         nNumIndexes (add_corner start e (foldl (add_corner start e) b pre) c)
           = nNumIndexes b + length pre + 1"
proof -
  let ?u = "foldl (add_corner start e) b pre"
  have 1: "nNumIndexes ?u \<le> nNumIndexes b + length pre"
    by (rule foldl_add_corner_count_le)
  have 2: "nNumIndexes (add_corner start e ?u c) \<le> nNumIndexes ?u + 1"
    using add_corner_index_step [of ?u start e c] by simp
  have 3: "nNumIndexes (foldl (add_corner start e) (add_corner start e ?u c) post)
             \<le> nNumIndexes (add_corner start e ?u c) + length post"
    by (rule foldl_add_corner_count_le)
  have 4: "nNumIndexes (foldl (add_corner start e) (add_corner start e ?u c) post)
             = nNumIndexes b + length pre + 1 + length post"
    using assms by simp
  from 1 2 3 4 show ?thesis by linarith
qed

lemma same_index_later:
  assumes e: "0 < e"
    and wn: "nonnull (pNorms s) \<longrightarrow> fst (snd c) \<noteq> None"
    and wt: "nonnull (pTexCoords s) \<longrightarrow> snd (snd c) \<noteq> None"
    and em: "nNumIndexes (add_corner 0 e s c) = nNumIndexes s + 1"
    and ext: "batch_extends (add_corner 0 e s c) t"
    and pn: "pNorms t = pNorms s" and pt: "pTexCoords t = pTexCoords s"
    and sa: "same_attributes s c c'"
    and extF: "batch_extends (add_corner 0 e t c') F"
  shows "indexes F (nNumIndexes t) = indexes F (nNumIndexes s)"
proof -
  from add_corner_same_index [OF e wn wt em ext pn pt sa]
  have i: "nNumIndexes (add_corner 0 e t c') = nNumIndexes t + 1"
    and x: "indexes (add_corner 0 e t c') (nNumIndexes t) = indexes (add_corner 0 e s c) (nNumIndexes s)"
    by simp_all
  have "indexes F (nNumIndexes t) = indexes (add_corner 0 e t c') (nNumIndexes t)"
    using extF i by (simp add: batch_extends_def)
  moreover have "batch_extends (add_corner 0 e s c) F"
    by (rule batch_extends_trans [OF ext batch_extends_trans [OF add_corner_extends extF]])
  then have "indexes F (nNumIndexes s) = indexes (add_corner 0 e s c) (nNumIndexes s)"
    using em by (simp add: batch_extends_def)
  ultimately show ?thesis using x by simp
qed

lemma foldl_split_at:
  "k < length cs \<Longrightarrow>
   foldl f s cs = foldl f (f (foldl f s (take k cs)) (cs ! k)) (drop (Suc k) cs)"
proof -
  assume "k < length cs"
  then have "cs = take k cs @ cs ! k # drop (Suc k) cs" by (rule id_take_nth_drop)
  then have "foldl f s cs = foldl f s (take k cs @ cs ! k # drop (Suc k) cs)" by simp
  then show ?thesis by (simp only: foldl_append foldl_Cons)
qed

lemma foldl_full_at:
  assumes "nNumIndexes (foldl (add_corner start e) b cs) = nNumIndexes b + length cs"
    and "k < length cs"
  shows "nNumIndexes (foldl (add_corner start e) b (take k cs)) = nNumIndexes b + k \<and>
         nNumIndexes (add_corner start e (foldl (add_corner start e) b (take k cs)) (cs ! k))
           = nNumIndexes b + k + 1"
proof -
  have cs: "cs = take k cs @ cs ! k # drop (Suc k) cs"
    using assms(2) by (rule id_take_nth_drop)
  have "nNumIndexes (foldl (add_corner start e) b (take k cs @ cs ! k # drop (Suc k) cs))
          = nNumIndexes b + length (take k cs @ cs ! k # drop (Suc k) cs)"
    using assms(1) cs by simp
  from foldl_add_corner_full_split [OF this] assms(2) show ?thesis by simp
qed

text \<open>Two corners of two folds, the second fold starting from a later state.\<close>

lemma foldl_same_index_two:
  assumes e: "0 < e"
    and wn: "\<forall>c \<in> set cs. nonnull (pNorms s) \<longrightarrow> fst (snd c) \<noteq> None"
    and wt: "\<forall>c \<in> set cs. nonnull (pTexCoords s) \<longrightarrow> snd (snd c) \<noteq> None"
    and full: "nNumIndexes (foldl (add_corner 0 e) s cs) = nNumIndexes s + length cs"
    and k: "k < length cs"
    and ext: "batch_extends (foldl (add_corner 0 e) s cs) t"
    and pn: "pNorms t = pNorms s" and pt: "pTexCoords t = pTexCoords s"
    and full': "nNumIndexes (foldl (add_corner 0 e) t cs') = nNumIndexes t + length cs'"
    and k': "k' < length cs'"
    and sa: "same_attributes s (cs ! k) (cs' ! k')"
  shows "indexes (foldl (add_corner 0 e) t cs') (nNumIndexes t + k')
         = indexes (foldl (add_corner 0 e) t cs') (nNumIndexes s + k)"
proof -
  let ?f = "add_corner 0 e"
  let ?su = "foldl ?f s (take k cs)" and ?tu = "foldl ?f t (take k' cs')"
  have ck: "cs ! k \<in> set cs" using k by simp
  from foldl_full_at [OF full k] have isu: "nNumIndexes ?su = nNumIndexes s + k"
    and em: "nNumIndexes (?f ?su (cs ! k)) = nNumIndexes ?su + 1" by simp_all
  from foldl_full_at [OF full' k'] have itu: "nNumIndexes ?tu = nNumIndexes t + k'" by simp
  have e1: "batch_extends (?f ?su (cs ! k)) (foldl ?f s cs)"
    unfolding foldl_split_at [OF k, of ?f s] by (rule foldl_add_corner_extends)
  have e2: "batch_extends (?f ?su (cs ! k)) ?tu"
    by (rule batch_extends_trans [OF e1 batch_extends_trans [OF ext foldl_add_corner_extends]])
  have e3: "batch_extends (?f ?tu (cs' ! k')) (foldl ?f t cs')"
    unfolding foldl_split_at [OF k', of ?f t] by (rule foldl_add_corner_extends)
  have sa': "same_attributes ?su (cs ! k) (cs' ! k')"
    using sa by (simp add: same_attributes_def)
  from same_index_later [of e ?su "cs ! k" ?tu "cs' ! k'" "foldl ?f t cs'", OF e _ _ em e2 _ _ sa' e3]
    wn wt ck pn pt
  show ?thesis by (simp add: isu itu)
qed

text \<open>Two corners of one fold.\<close>

lemma foldl_same_index_one:
  assumes e: "0 < e"
    and wn: "\<forall>c \<in> set cs. nonnull (pNorms s) \<longrightarrow> fst (snd c) \<noteq> None"
    and wt: "\<forall>c \<in> set cs. nonnull (pTexCoords s) \<longrightarrow> snd (snd c) \<noteq> None"
    and full: "nNumIndexes (foldl (add_corner 0 e) s cs) = nNumIndexes s + length cs"
    and k: "k < k'" and k': "k' < length cs"
    and sa: "same_attributes s (cs ! k) (cs ! k')"
  shows "indexes (foldl (add_corner 0 e) s cs) (nNumIndexes s + k')
         = indexes (foldl (add_corner 0 e) s cs) (nNumIndexes s + k)"
proof -
  let ?f = "add_corner 0 e"
  let ?su = "foldl ?f s (take k cs)" and ?tu = "foldl ?f s (take k' cs)"
  have kl: "k < length cs" using k k' by simp
  have ck: "cs ! k \<in> set cs" using kl by simp
  from foldl_full_at [OF full kl] have isu: "nNumIndexes ?su = nNumIndexes s + k"
    and em: "nNumIndexes (?f ?su (cs ! k)) = nNumIndexes ?su + 1" by simp_all
  from foldl_full_at [OF full k'] have itu: "nNumIndexes ?tu = nNumIndexes s + k'" by simp
  have kt: "k < length (take k' cs)" using k k' by simp
  have "?tu = foldl ?f (?f (foldl ?f s (take k (take k' cs))) (take k' cs ! k))
                (drop (Suc k) (take k' cs))"
    by (rule foldl_split_at [OF kt])
  also have "take k (take k' cs) = take k cs" using k by (simp add: min_def)
  also have "take k' cs ! k = cs ! k" using k by simp
  finally have e2: "batch_extends (?f ?su (cs ! k)) ?tu"
    by (simp only: foldl_add_corner_extends)
  have e3: "batch_extends (?f ?tu (cs ! k')) (foldl ?f s cs)"
    unfolding foldl_split_at [OF k', of ?f s] by (rule foldl_add_corner_extends)
  have sa': "same_attributes ?su (cs ! k) (cs ! k')"
    using sa by (simp add: same_attributes_def)
  from same_index_later [of e ?su "cs ! k" ?tu "cs ! k'" "foldl ?f s cs", OF e _ _ em e2 _ _ sa' e3]
    wn wt ck
  show ?thesis by (simp add: isu itu)
qed

lemma search_start_zero:
  assumes "int V \<le> r" "r < 2 ^ 31"
  shows "search_start V r = 0"
proof -
  have "- (2 ^ 31) \<le> int V - r" "int V - r < 2 ^ 31" using assms by simp_all
  from to_int32_id [OF this] assms(1) show ?thesis
    by (simp add: search_start_def Let_def)
qed

lemma tri_at_normalized:
  "tri_at (m3dNormalizeVector3 n0, m3dNormalizeVector3 n1, m3dNormalizeVector3 n2) k
     = m3dNormalizeVector3 (tri_at (n0, n1, n2) k)"
  by simp

lemma corner_at_normalized:
  "corner_at vs (normalize_normals vn) vt k =
     (fst (corner_at vs vn vt k),
      map_option m3dNormalizeVector3 (fst (snd (corner_at vs vn vt k))),
      snd (snd (corner_at vs vn vt k)))"
proof (cases vn)
  case None
  then show ?thesis by (simp add: corner_at_def normalize_normals_def)
next
  case (Some n)
  obtain n0 n1 n2 where n: "n = (n0, n1, n2)" by (cases n)
  show ?thesis
    unfolding Some n corner_at_def normalize_normals_def by simp
qed

lemma same_attributes_normalized:
  assumes "same_attributes b (corner_at vs vn vt k) (corner_at vs' vn' vt' k')"
  shows "same_attributes b (corner_at vs (normalize_normals vn) vt k)
           (corner_at vs' (normalize_normals vn') vt' k')"
  using assms unfolding corner_at_normalized
  by (simp add: same_attributes_def split: prod.splits)

lemma corner_at_present:
  "fst (snd (corner_at vs vn vt k)) = None \<longleftrightarrow> vn = None"
  "snd (snd (corner_at vs vn vt k)) = None \<longleftrightarrow> vt = None"
  by (simp_all add: corner_at_def)

lemma corners_present:
  "\<forall>c \<in> set (map (corner_at vs vn vt) ks).
     nonnull (pNorms (release_channels b vn vt)) \<longrightarrow> fst (snd c) \<noteq> None"
  "\<forall>c \<in> set (map (corner_at vs vn vt) ks).
     nonnull (pTexCoords (release_channels b vn vt)) \<longrightarrow> snd (snd c) \<noteq> None"
  by (simp_all add: corner_at_present del: not_None_eq)

lemma nth_three: "k < 3 \<Longrightarrow> map f [0, 1, 2 :: nat] ! k = f k"
  by (auto simp: numeral_3_eq_3 numeral_2_eq_2 less_Suc_eq)

lemma same_attributes_flags:
  "same_attributes s c c' \<Longrightarrow> pNorms s = pNorms t \<Longrightarrow> pTexCoords s = pTexCoords t \<Longrightarrow>
   same_attributes t c c'"
  by (simp add: same_attributes_def)

lemma AddTriangle_complete:
  assumes "nNumIndexes (fst (AddTriangle b vs vn vt e r)) = nNumIndexes b + 3"
    and "int (nNumVerts b) \<le> r" "r < 2 ^ 31"
  shows "fst (AddTriangle b vs vn vt e r) =
           foldl (add_corner 0 e) (release_channels b (normalize_normals vn) vt)
             (map (corner_at vs (normalize_normals vn) vt) [0, 1, 2])"
proof -
  have nd: "nNumIndexes b < nMaxIndexes b"
  proof (rule ccontr)
    assume "\<not> nNumIndexes b < nMaxIndexes b"
    then have "fst (AddTriangle b vs vn vt e r) = b" by (simp add: AddTriangle_def)
    with assms(1) show False by simp
  qed
  show ?thesis
    unfolding AddTriangle_not_dropped [OF nd] search_start_zero [OF assms(2,3)] ..
qed

text \<open>
  C3. As stated (with \<open>\<epsilon> = 0\<close>) the claim does not hold: \<open>|a - b| < 0\<close> is never true, so
  with \<open>\<epsilon> = 0\<close> no corner matches any vertex, and the three identical corners of one triangle
  are stored as three vertices with the indices 0, 1 and 2.
\<close>

theorem zero_epsilon_never_matches:
  "nNumIndexes (fst (AddTriangle (BeginMesh GLTriangleBatch 6) tri_point None None 0 64)) = 3 \<and>
   indexes (fst (AddTriangle (BeginMesh GLTriangleBatch 6) tri_point None None 0 64)) 0 = 0 \<and>
   indexes (fst (AddTriangle (BeginMesh GLTriangleBatch 6) tri_point None None 0 64)) 1 = 1 \<and>
   indexes (fst (AddTriangle (BeginMesh GLTriangleBatch 6) tri_point None None 0 64)) 2 = 2"
  by (simp add: eval_defs)

text \<open>
  C3, amended. On a batch begun with \<^verbatim>\<open>BeginMesh\<close>, with \<open>\<epsilon> > 0\<close> and \<open>range \<ge> V\<close> at
  entry of the calls involved, two corners that share their attributes across all present
  channels are assigned the same emitted index, when the calls they belong to are complete
  (three indices emitted each), no channel is released between them, and every normal
  passed to the batch since \<^verbatim>\<open>BeginMesh\<close> is one the float code normalises to finite
  components (attribute components are real numbers here, hence finite; the conditions on
  the normals mark the inputs on which the float code produces no NaN, the proof does not
  need them). The two corners are corners \<open>kA < kB\<close> of one call, or corner \<open>kA\<close> of a call
  and corner \<open>kB\<close> of a later call of the same batch (any calls in between). The index of
  corner \<open>k\<close> of a complete call entered with \<open>I\<close> indices is at slot \<open>I + k\<close>.
\<close>

theorem identical_corners_same_index:
  assumes "0 < epsilon"
    and "a' = fst (AddTriangle a vsA nA tA epsilon rA)"
    and "nNumIndexes a' = nNumIndexes a + 3"
    and "int (nNumVerts a) \<le> rA" and "rA < 2 ^ 31"
    and "kA < 3"
    and "a = AddTriangles (BeginMesh a0 nMaxVerts) earlier"
    and "\<forall>(vs, vn, vt, e, r) \<in> set earlier. normals_normalizable vn"
    and "normals_normalizable nA"
  shows
    "(kA < kB \<and> kB < 3 \<and>
      same_attributes a' (corner_at vsA nA tA kA) (corner_at vsA nA tA kB) \<longrightarrow>
        indexes a' (nNumIndexes a + kB) = indexes a' (nNumIndexes a + kA)) \<and>
     (b = AddTriangles a' calls \<and> b' = fst (AddTriangle b vsB nB tB epsilon rB) \<and>
      nNumIndexes b' = nNumIndexes b + 3 \<and> int (nNumVerts b) \<le> rB \<and> rB < 2 ^ 31 \<and>
      kB < 3 \<and> pNorms b' = pNorms a' \<and> pTexCoords b' = pTexCoords a' \<and>
      same_attributes a' (corner_at vsA nA tA kA) (corner_at vsB nB tB kB) \<and>
      normals_normalizable nB \<and>
      (\<forall>(vs, vn, vt, e, r) \<in> set calls. normals_normalizable vn) \<longrightarrow>
        indexes b' (nNumIndexes b + kB) = indexes b' (nNumIndexes a + kA))"
proof -
  let ?nA = "normalize_normals nA"
  let ?a0 = "release_channels a ?nA tA"
  let ?csA = "map (corner_at vsA ?nA tA) [0, 1, 2]"
  have a': "a' = foldl (add_corner 0 epsilon) ?a0 ?csA"
    unfolding assms(2) using assms(3) [unfolded assms(2)] assms(4,5)
    by (rule AddTriangle_complete)
  have fullA: "nNumIndexes (foldl (add_corner 0 epsilon) ?a0 ?csA) = nNumIndexes ?a0 + length ?csA"
    using assms(3) unfolding a' by simp
  have pa: "pNorms a' = pNorms ?a0" "pTexCoords a' = pTexCoords ?a0"
    unfolding a' by simp_all
  have kA: "kA < length ?csA" using assms(6) by simp
  have one: "kA < kB \<and> kB < 3 \<and>
      same_attributes a' (corner_at vsA nA tA kA) (corner_at vsA nA tA kB) \<longrightarrow>
        indexes a' (nNumIndexes a + kB) = indexes a' (nNumIndexes a + kA)"
  proof
    assume h: "kA < kB \<and> kB < 3 \<and>
      same_attributes a' (corner_at vsA nA tA kA) (corner_at vsA nA tA kB)"
    then have kB: "kB < length ?csA" by simp
    have "same_attributes a' (corner_at vsA ?nA tA kA) (corner_at vsA ?nA tA kB)"
      using h by (intro same_attributes_normalized) simp
    then have sa: "same_attributes ?a0 (?csA ! kA) (?csA ! kB)"
      using assms(6) h pa by (simp only: nth_three same_attributes_flags)
    from foldl_same_index_one [OF assms(1) corners_present fullA _ kB sa] h
    show "indexes a' (nNumIndexes a + kB) = indexes a' (nNumIndexes a + kA)"
      unfolding a' by simp
  qed
  have two: "b = AddTriangles a' calls \<and> b' = fst (AddTriangle b vsB nB tB epsilon rB) \<and>
      nNumIndexes b' = nNumIndexes b + 3 \<and> int (nNumVerts b) \<le> rB \<and> rB < 2 ^ 31 \<and>
      kB < 3 \<and> pNorms b' = pNorms a' \<and> pTexCoords b' = pTexCoords a' \<and>
      same_attributes a' (corner_at vsA nA tA kA) (corner_at vsB nB tB kB) \<and>
      normals_normalizable nB \<and>
      (\<forall>(vs, vn, vt, e, r) \<in> set calls. normals_normalizable vn) \<longrightarrow>
        indexes b' (nNumIndexes b + kB) = indexes b' (nNumIndexes a + kA)"
  proof
    assume h: "b = AddTriangles a' calls \<and> b' = fst (AddTriangle b vsB nB tB epsilon rB) \<and>
      nNumIndexes b' = nNumIndexes b + 3 \<and> int (nNumVerts b) \<le> rB \<and> rB < 2 ^ 31 \<and>
      kB < 3 \<and> pNorms b' = pNorms a' \<and> pTexCoords b' = pTexCoords a' \<and>
      same_attributes a' (corner_at vsA nA tA kA) (corner_at vsB nB tB kB) \<and>
      normals_normalizable nB \<and>
      (\<forall>(vs, vn, vt, e, r) \<in> set calls. normals_normalizable vn)"
    let ?nB = "normalize_normals nB"
    let ?b0 = "release_channels b ?nB tB"
    let ?csB = "map (corner_at vsB ?nB tB) [0, 1, 2]"
    from h have b: "b = AddTriangles a' calls"
      and b'0: "b' = fst (AddTriangle b vsB nB tB epsilon rB)"
      and ib: "nNumIndexes b' = nNumIndexes b + 3"
      and rB: "int (nNumVerts b) \<le> rB" "rB < 2 ^ 31"
      and pb: "pNorms b' = pNorms a'" "pTexCoords b' = pTexCoords a'"
      by blast+
    have b': "b' = foldl (add_corner 0 epsilon) ?b0 ?csB"
      unfolding b'0 using ib [unfolded b'0] rB by (rule AddTriangle_complete)
    have fullB: "nNumIndexes (foldl (add_corner 0 epsilon) ?b0 ?csB) = nNumIndexes ?b0 + length ?csB"
      using ib unfolding b' by simp
    have kB: "kB < length ?csB" using h by simp
    have pb0: "pNorms ?b0 = pNorms ?a0" "pTexCoords ?b0 = pTexCoords ?a0"
      using pb pa unfolding b' by simp_all
    have ext: "batch_extends (foldl (add_corner 0 epsilon) ?a0 ?csA) ?b0"
      unfolding a' [symmetric]
      by (rule batch_extends_trans [OF _ release_channels_extends])
        (simp add: b AddTriangles_extends)
    have "same_attributes a' (corner_at vsA ?nA tA kA) (corner_at vsB ?nB tB kB)"
      using h by (intro same_attributes_normalized) simp
    then have sa: "same_attributes ?a0 (?csA ! kA) (?csB ! kB)"
      using assms(6) h pa by (simp only: nth_three same_attributes_flags)
    from foldl_same_index_two [OF assms(1) corners_present fullA kA ext pb0 fullB kB sa]
    show "indexes b' (nNumIndexes b + kB) = indexes b' (nNumIndexes a + kA)"
      unfolding b' by simp
  qed
  from one two show ?thesis by (rule conjI)
qed

theorem identical_corners_same_index_witness:
  "indexes (fst (AddTriangle (BeginMesh GLTriangleBatch 64) tri_point (Some normals_up) None
       (1 / 1000) 64)) 1
     = indexes (fst (AddTriangle (BeginMesh GLTriangleBatch 64) tri_point (Some normals_up) None
       (1 / 1000) 64)) 0 \<and>
   indexes (fst (AddTriangle
       (AddTriangles
          (fst (AddTriangle (BeginMesh GLTriangleBatch 64) tri_point (Some normals_up) None
             (1 / 1000) 64))
          [(tri_S1, Some normals_axes, None, 1 / 1000, 64)])
       tri_point (Some normals_up) None (1 / 1000) 64)) 7
     = indexes (fst (AddTriangle
       (AddTriangles
          (fst (AddTriangle (BeginMesh GLTriangleBatch 64) tri_point (Some normals_up) None
             (1 / 1000) 64))
          [(tri_S1, Some normals_axes, None, 1 / 1000, 64)])
       tri_point (Some normals_up) None (1 / 1000) 64)) 0"
proof -
  let ?a = "BeginMesh GLTriangleBatch 64"
  let ?a' = "fst (AddTriangle ?a tri_point (Some normals_up) None (1 / 1000) 64)"
  let ?calls = "[(tri_S1, Some normals_axes, None :: M3DVector2f tri option, 1 / 1000 :: GLfloat,
                  64 :: int)]"
  let ?b = "AddTriangles ?a' ?calls"
  let ?b' = "fst (AddTriangle ?b tri_point (Some normals_up) None (1 / 1000) 64)"
  note ev = eval_defs m3dNormalizeVector3_def normals_up_def normals_axes_def
  have e: "(0 :: GLfloat) < 1 / 1000" by simp
  have ia: "nNumIndexes ?a = 0" and va: "int (nNumVerts ?a) \<le> 64"
    by (simp_all add: BeginMesh_def)
  have ia': "nNumIndexes ?a' = nNumIndexes ?a + 3"
    and pa': "pNorms ?a' = Block" "pTexCoords ?a' = Null"
    by (simp_all add: ev)
  have ib: "nNumIndexes ?b = 6" and vb: "int (nNumVerts ?b) \<le> 64"
    by (simp_all add: ev)
  have ib': "nNumIndexes ?b' = nNumIndexes ?b + 3"
    and pb': "pNorms ?b' = Block" "pTexCoords ?b' = Null"
    by (simp_all add: ev)
  have nz: "normals_normalizable (Some normals_up)"
    "\<forall>(vs, vn, vt, e, r) \<in> set ?calls. normals_normalizable vn"
    by (simp_all add: normals_normalizable_def normalizable_def normals_up_def normals_axes_def)
  have h: "?a = AddTriangles (BeginMesh GLTriangleBatch 64) []"
    "\<forall>(vs, vn, vt, e, r) \<in> set ([] :: call list). normals_normalizable vn"
    by simp_all
  have sa: "same_attributes ?a' (corner_at tri_point (Some normals_up) None 0)
              (corner_at tri_point (Some normals_up) None 1)"
    by (simp add: same_attributes_def corner_at_def tri_point_def normals_up_def)
  from identical_corners_same_index [OF e refl ia' va _ _ h nz(1), where kA = 0 and kB = 1
      and b = ?b and calls = ?calls and b' = ?b' and vsB = tri_point
      and nB = "Some normals_up" and tB = None and rB = 64]
    ia ib ib' vb pa' pb' sa nz
  show ?thesis by simp
qed

end
